theory Spec2Isabelle
  imports Main "HOL-Library.Word"
begin

section \<open>The persona system call layer (bsd/kern/sys_persona.c)\<close>

text \<open>
  The source file is the system call front end of the persona subsystem of xnu-4570.71.2.
  Each handler is embedded as a function from its arguments, the caller's side of the
  user/kernel boundary and the persona registry to an error code, the registry afterwards
  and the list of copy-outs that reached user memory.

  The registry itself (bsd/kern/persona.c) and the headers are not part of the sources at
  hand; their operations are modelled from the specification and are marked as such.
\<close>

subsection \<open>Machine types and constants\<close>

type_synonym uid_t = "32 word"
type_synonym gid_t = "32 word"
type_synonym pid_t = "32 word"
type_synonym size_t = "64 word"
type_synonym user_addr_t = "64 word"
type_synonym errno = int

text \<open>The BSD error numbers the handlers return (sys/errno.h).\<close>

definition EPERM :: errno where "EPERM = 1"
definition ESRCH :: errno where "ESRCH = 3"
definition ENOMEM :: errno where "ENOMEM = 12"
definition EFAULT :: errno where "EFAULT = 14"
definition EEXIST :: errno where "EEXIST = 17"
definition EINVAL :: errno where "EINVAL = 22"

text \<open>
  The constants of the absent headers sys/persona.h, sys/kauth.h and sys/param.h. The
  spec names each of them without giving a number; the numbers are those of the xnu
  headers.
\<close>

text \<open>Modelled from the spec: the single supported version of the record.\<close>

definition PERSONA_INFO_V1 :: "32 word" where "PERSONA_INFO_V1 = 1"

text \<open>Modelled from the spec: the "none" sentinel id, (uid_t)-1.\<close>

definition PERSONA_ID_NONE :: uid_t where "PERSONA_ID_NONE = - 1"

text \<open>
  Modelled from the spec: the "disabled" sentinel of the resolution identity,
  ~(uid_t)0 - 100.
\<close>

definition KAUTH_UID_NONE :: uid_t where "KAUTH_UID_NONE = - 1 - 100"

text \<open>Modelled from the spec: the "unset" sentinel of the primary group, ~(gid_t)0 - 100.\<close>

definition KAUTH_GID_NONE :: gid_t where "KAUTH_GID_NONE = - 1 - 100"

text \<open>Modelled from the spec: the fixed maximum length of a login name.\<close>

definition MAXLOGNAME :: nat where "MAXLOGNAME = 255"

text \<open>Modelled from the spec: the capacity of a Group-Set, 16.\<close>

definition NGROUPS :: nat where "NGROUPS = 16"

subsection \<open>The request/response record\<close>

text \<open>
  Modelled from the spec: struct kpersona_info of the absent sys/persona.h, with the
  fields of section 6: version, id, type, primary group, group count, group list
  (capacity NGROUPS), resolution identity and login name (a char array of
  MAXLOGNAME + 1 bytes).
\<close>

record kpersona_info =
  persona_info_version :: "32 word"
  persona_id :: uid_t
  persona_type :: "32 word"
  persona_gid :: gid_t
  persona_ngroups :: "32 word"
  persona_groups :: "gid_t list"
  persona_gmuid :: uid_t
  persona_name :: "char list"

text \<open>The bytes of a C string held in a char array: everything before the first NUL.\<close>

definition c_string :: "char list \<Rightarrow> char list" where
  "c_string buf = takeWhile (\<lambda>c. c \<noteq> CHR 0x00) buf"

subsection \<open>The registry\<close>

text \<open>
  Modelled from the spec: struct persona of the absent bsd/kern/persona.c, after section
  3. A reference (struct persona *) is the key of the entry in the table, that is its id,
  which is unique among the entries of the table (invariant 5); NULL is None. The table
  is kept as a list, scanned front to back.
\<close>

record persona =
  pna_id :: uid_t
  pna_type :: "32 word"
  pna_login :: "char list"
  pna_gid :: gid_t
  pna_groups :: "gid_t list"
  pna_gmuid :: uid_t
  pna_refcount :: nat
  pna_valid :: bool

text \<open>
  Modelled from the spec: the Registry of section 3: the table, its bound max_personas
  and the allocation cursor, and with them the two external decisions the registry
  consults: the persona a process has adopted, and the supported range of the type tag.
\<close>

record registry =
  all_personas :: "persona list"
  g_max_personas :: "32 word"
  g_next_persona_id :: uid_t
  proc_persona :: "pid_t \<Rightarrow> uid_t option"
  persona_type_supported :: "32 word \<Rightarrow> bool"

text \<open>Modelled from the spec: the keys of the table.\<close>

definition persona_ids :: "registry \<Rightarrow> uid_t list" where
  "persona_ids r = map pna_id (all_personas r)"

text \<open>Modelled from the spec: acquiring a reference increments the count.\<close>

definition persona_get :: "persona \<Rightarrow> persona" where
  "persona_get p = p\<lparr>pna_refcount := pna_refcount p + 1\<rparr>"

text \<open>
  Modelled from the spec: "generate the next unused id", searching upwards from the
  allocation cursor. Among one more candidate than the table has entries one is unused.
\<close>

definition next_unused_id :: "registry \<Rightarrow> uid_t option" where
  "next_unused_id r =
     List.find (\<lambda>i. i \<notin> set (persona_ids r))
       (map (\<lambda>k. g_next_persona_id r + of_nat k) [0..<Suc (length (all_personas r))])"

text \<open>
  Modelled from the spec: a persona as Registry.allocate inserts it: one reference, valid,
  the primary group unset, no groups, an absent login as the empty default.
\<close>

definition new_persona :: "uid_t \<Rightarrow> char list option \<Rightarrow> 32 word \<Rightarrow> persona" where
  "new_persona id' login type =
     \<lparr>pna_id = id', pna_type = type,
      pna_login = (case login of None \<Rightarrow> [] | Some l \<Rightarrow> l),
      pna_gid = KAUTH_GID_NONE, pna_groups = [], pna_gmuid = 0,
      pna_refcount = 1, pna_valid = True\<rparr>"

text \<open>
  Modelled from the spec: Registry.allocate (persona_alloc of the absent persona.c). The
  failures are tested in the order the spec lists them: DuplicateId (EEXIST),
  CapacityExceeded (ENOMEM), InvalidArgument (EINVAL, type outside the supported range).
  The result is the reference or NULL, the error code, and the registry.
\<close>

definition persona_alloc ::
  "uid_t \<Rightarrow> char list option \<Rightarrow> 32 word \<Rightarrow> registry \<Rightarrow> uid_t option \<times> errno \<times> registry" where
  "persona_alloc id' login type r =
     (if id' \<noteq> PERSONA_ID_NONE \<and> id' \<in> set (persona_ids r) then (None, EEXIST, r)
      else if unat (g_max_personas r) \<le> length (all_personas r) then (None, ENOMEM, r)
      else if \<not> persona_type_supported r type then (None, EINVAL, r)
      else case (if id' = PERSONA_ID_NONE then next_unused_id r else Some id') of
             None \<Rightarrow> (None, ENOMEM, r)
           | Some n \<Rightarrow>
               (Some n, 0,
                r\<lparr>all_personas := all_personas r @ [new_persona n login type],
                  g_next_persona_id :=
                    (if id' = PERSONA_ID_NONE then n + 1 else g_next_persona_id r)\<rparr>))"

text \<open>
  Modelled from the spec: Registry.lookup (persona_lookup): NotFound unless an entry with
  that id exists and is valid; otherwise the count is incremented.
\<close>

definition persona_lookup :: "uid_t \<Rightarrow> registry \<Rightarrow> uid_t option \<times> registry" where
  "persona_lookup id' r =
     (if \<exists>p \<in> set (all_personas r). pna_id p = id' \<and> pna_valid p
      then (Some id',
            r\<lparr>all_personas :=
                map (\<lambda>p. if pna_id p = id' \<and> pna_valid p then persona_get p else p)
                  (all_personas r)\<rparr>)
      else (None, r))"

text \<open>
  Modelled from the spec: Registry.invalidate (persona_lookup_and_invalidate): NotFound if
  the entry is absent or already invalid; otherwise valid becomes false and an acquired
  reference is returned.
\<close>

definition persona_lookup_and_invalidate :: "uid_t \<Rightarrow> registry \<Rightarrow> uid_t option \<times> registry" where
  "persona_lookup_and_invalidate id' r =
     (if \<exists>p \<in> set (all_personas r). pna_id p = id' \<and> pna_valid p
      then (Some id',
            r\<lparr>all_personas :=
                map (\<lambda>p. if pna_id p = id' \<and> pna_valid p
                         then (persona_get p)\<lparr>pna_valid := False\<rparr> else p)
                  (all_personas r)\<rparr>)
      else (None, r))"

text \<open>
  Modelled from the spec: Registry.release on one entry: the count is decremented (it
  never goes below zero); when it reaches zero and the persona is invalid the entry
  leaves the table.
\<close>

definition release_entry :: "persona \<Rightarrow> persona list" where
  "release_entry p =
     (let p' = p\<lparr>pna_refcount := pna_refcount p - 1\<rparr>
      in if pna_refcount p' = 0 \<and> \<not> pna_valid p' then [] else [p'])"

text \<open>
  Modelled from the spec: Registry.release (persona_put) on the entry a reference names.
  The handlers also pass NULL (the unused slots of the array of the search), which
  releases nothing.
\<close>

definition persona_put :: "uid_t option \<Rightarrow> registry \<Rightarrow> registry" where
  "persona_put persona r =
     (case persona of
        None \<Rightarrow> r
      | Some h \<Rightarrow>
          r\<lparr>all_personas :=
              concat (map (\<lambda>p. if pna_id p = h then release_entry p else [p])
                (all_personas r))\<rparr>)"

text \<open>
  Modelled from the spec: reading the persona behind a reference; None when no entry of
  the table has that key.
\<close>

definition persona_deref :: "uid_t \<Rightarrow> registry \<Rightarrow> persona option" where
  "persona_deref h r = List.find (\<lambda>p. pna_id p = h) (all_personas r)"

text \<open>
  Modelled from the spec: Set-Primary-Group (persona_set_gid) stores the group and
  enforces no range.
\<close>

definition persona_set_gid :: "uid_t \<Rightarrow> gid_t \<Rightarrow> registry \<Rightarrow> errno \<times> registry" where
  "persona_set_gid h gid r =
     (0, r\<lparr>all_personas :=
            map (\<lambda>p. if pna_id p = h then p\<lparr>pna_gid := gid\<rparr> else p) (all_personas r)\<rparr>)"

text \<open>
  Modelled from the spec: Set-Groups (persona_set_groups) fails with TooManyGroups
  (EINVAL) when the count exceeds the capacity and leaves the Group-Set unchanged;
  otherwise it copies the first count groups and stores the resolution identity it is
  given. The remapping of the zero identity that the spec describes with this operation
  is the caller's, lines 115 to 117 of sys_persona.c, and is not repeated here.
\<close>

definition persona_set_groups ::
  "uid_t \<Rightarrow> gid_t list \<Rightarrow> 32 word \<Rightarrow> uid_t \<Rightarrow> registry \<Rightarrow> errno \<times> registry" where
  "persona_set_groups h groups ngroups gmuid r =
     (if NGROUPS < unat ngroups then (EINVAL, r)
      else (0, r\<lparr>all_personas :=
                 map (\<lambda>p. if pna_id p = h
                          then p\<lparr>pna_groups := take (unat ngroups) groups, pna_gmuid := gmuid\<rparr>
                          else p)
                   (all_personas r)\<rparr>))"

text \<open>
  Modelled from the spec: Acquire-Persona-By-Owner (persona_proc_get): the persona
  adopted by the given process, with an acquired reference, or NotFound.
\<close>

definition persona_proc_get :: "pid_t \<Rightarrow> registry \<Rightarrow> uid_t option \<times> registry" where
  "persona_proc_get pid r =
     (case proc_persona r pid of
        None \<Rightarrow> (None, r)
      | Some h \<Rightarrow>
          (if h \<in> set (persona_ids r)
           then (Some h,
                 r\<lparr>all_personas :=
                     map (\<lambda>p. if pna_id p = h then persona_get p else p) (all_personas r)\<rparr>)
           else (None, r)))"

text \<open>
  Modelled from the spec: the matching rule of Registry.find: a candidate matches if the
  login filter is absent or equals its login, and the id filter is the "none" sentinel or
  equals its id.
\<close>

definition persona_matches :: "char list option \<Rightarrow> uid_t \<Rightarrow> persona \<Rightarrow> bool" where
  "persona_matches login uid p \<longleftrightarrow>
     (case login of None \<Rightarrow> True | Some l \<Rightarrow> pna_login p = l) \<and>
     (uid = PERSONA_ID_NONE \<or> pna_id p = uid)"

text \<open>Modelled from the spec: the valid entries that match, in the order of the scan.\<close>

definition found_personas :: "char list option \<Rightarrow> uid_t \<Rightarrow> registry \<Rightarrow> persona list" where
  "found_personas login uid r =
     filter (\<lambda>p. pna_valid p \<and> persona_matches login uid p) (all_personas r)"

text \<open>
  Modelled from the spec: Registry.find (persona_find). It scans the valid entries, stores
  an acquired reference for each of the first plen matches in the array (none when the
  array is NULL), and reports in plen the total number of matches, also beyond the limit.
  A search without any match fails with NotFound (ESRCH).
\<close>

definition persona_find ::
  "char list option \<Rightarrow> uid_t \<Rightarrow> uid_t option list option \<Rightarrow> size_t \<Rightarrow> registry \<Rightarrow>
     errno \<times> uid_t option list option \<times> size_t \<times> registry" where
  "persona_find login uid persona plen r =
     (let found = found_personas login uid r;
          got = (case persona of None \<Rightarrow> []
                 | Some arr \<Rightarrow> take (unat plen) (map pna_id found))
      in (if found = [] then ESRCH else 0,
          map_option (\<lambda>arr. map Some got @ drop (length got) arr) persona,
          of_nat (length found),
          r\<lparr>all_personas :=
              map (\<lambda>p. if pna_id p \<in> set got then persona_get p else p) (all_personas r)\<rparr>))"

subsection \<open>The user/kernel boundary\<close>

text \<open>
  copyin and copyout are external to the file. What the caller's memory holds at the
  start of the call, and which accesses fault, is given by the environment: a copy-in
  yields an error code and the data, a copy-out to an address yields an error code. The
  copy-outs that succeed are logged in order, and a copy-in that follows a copy-out reads
  what the copy-out has left in memory (see after_copyout32 below). The environment also
  carries the privilege decision (kauth_cred_issuser), the id of the current process and
  whether MALLOC returns NULL.
\<close>

datatype uval = U32 "32 word" | U64 "64 word" | UInfo kpersona_info

type_synonym writes = "(user_addr_t \<times> uval) list"

record kenv =
  is_superuser :: bool
  cur_pid :: pid_t
  uin32 :: "user_addr_t \<Rightarrow> errno \<times> 32 word"
  uin64 :: "user_addr_t \<Rightarrow> errno \<times> 64 word"
  uin_info :: "user_addr_t \<Rightarrow> errno \<times> kpersona_info"
  uout :: "user_addr_t \<Rightarrow> errno"
  malloc_fails :: bool

definition copyout :: "kenv \<Rightarrow> uval \<Rightarrow> user_addr_t \<Rightarrow> writes \<Rightarrow> errno \<times> writes" where
  "copyout env v addr w = (if uout env addr = 0 then (0, w @ [(addr, v)]) else (uout env addr, w))"

text \<open>
  The 32-bit value that a copy-in of four bytes at address b yields once the four bytes
  of v have been copied out to address a, when it yielded old before. Memory is
  byte-addressed and little-endian. When b lies d bytes above a with d below 4, the low
  4 - d bytes read are the high bytes of v and the rest are those of old; when b lies d
  bytes below a with d below 4, the low d bytes read are those of old and the rest are
  the low bytes of v; otherwise the two ranges are disjoint. The two parts of each sum
  occupy different bits.
\<close>

definition overlay32 :: "user_addr_t \<Rightarrow> 32 word \<Rightarrow> user_addr_t \<Rightarrow> 32 word \<Rightarrow> 32 word" where
  "overlay32 a v b old =
     (if b - a < 4
      then drop_bit (8 * unat (b - a)) v +
           push_bit (8 * (4 - unat (b - a))) (drop_bit (8 * (4 - unat (b - a))) old)
      else if a - b < 4
      then take_bit (8 * unat (a - b)) old + push_bit (8 * unat (a - b)) v
      else old)"

text \<open>
  The caller's memory after a successful copy-out of the 32-bit value v to address a, as
  the four-byte copy-ins see it. Whether an access faults does not change. The only
  copy-in that follows a copy-out in the file is the four-byte read of the version tag by
  kpersona_copyout after kpersona_alloc_syscall has copied out the id (lines 126 to 129).
\<close>

definition after_copyout32 :: "kenv \<Rightarrow> user_addr_t \<Rightarrow> 32 word \<Rightarrow> kenv" where
  "after_copyout32 env a v =
     env\<lparr>uin32 := \<lambda>b. (fst (uin32 env b), overlay32 a v b (snd (uin32 env b)))\<rparr>"

subsection \<open>kpersona_copyin and kpersona_copyout\<close>

text \<open>
  kpersona_copyin (lines 40 to 59). The result is the error (never 0) or the record that
  was copied in, with the last byte of the name forced to NUL.
\<close>

definition kpersona_copyin :: "kenv \<Rightarrow> user_addr_t \<Rightarrow> errno + kpersona_info" where
  "kpersona_copyin env infop =
     (case uin32 env infop of (error, info_v) \<Rightarrow>
        if error \<noteq> 0 then Inl error
        else if info_v \<noteq> PERSONA_INFO_V1 then Inl EINVAL
        else case uin_info env infop of (error, kinfo) \<Rightarrow>
          if error \<noteq> 0 then Inl error
          else Inr (kinfo\<lparr>persona_name := (persona_name kinfo)[MAXLOGNAME := CHR 0x00]\<rparr>))"

text \<open>kpersona_copyout (lines 61 to 77).\<close>

definition kpersona_copyout :: "kenv \<Rightarrow> kpersona_info \<Rightarrow> user_addr_t \<Rightarrow> writes \<Rightarrow> errno \<times> writes" where
  "kpersona_copyout env kinfo infop w =
     (case uin32 env infop of (error, info_v) \<Rightarrow>
        if error \<noteq> 0 then (error, w)
        else if info_v \<noteq> PERSONA_INFO_V1 then (EINVAL, w)
        else copyout env (UInfo kinfo) infop w)"

text \<open>login = kinfo.persona_name[0] ? kinfo.persona_name : NULL (lines 99 and 291).\<close>

definition login_of :: "kpersona_info \<Rightarrow> char list option" where
  "login_of kinfo =
     (if persona_name kinfo ! 0 \<noteq> CHR 0x00 then Some (c_string (persona_name kinfo)) else None)"

subsection \<open>kpersona_alloc_syscall\<close>

text \<open>
  Lines 80 to 143. The label out_error releases the reference and returns the error. The
  id that is copied out, persona->pna_id, is the key that the reference is. The final
  kpersona_copyout reads the version tag from the caller's memory as the copy-out of the
  id has left it.
\<close>

definition alloc_out_error :: "errno \<Rightarrow> uid_t option \<Rightarrow> registry \<Rightarrow> writes \<Rightarrow> errno \<times> registry \<times> writes" where
  "alloc_out_error error persona r w = (error, persona_put persona r, w)"

definition kpersona_alloc_syscall ::
  "kenv \<Rightarrow> user_addr_t \<Rightarrow> user_addr_t \<Rightarrow> registry \<Rightarrow> errno \<times> registry \<times> writes" where
  "kpersona_alloc_syscall env infop idp r =
     (if \<not> is_superuser env then (EPERM, r, [])
      else case kpersona_copyin env infop of
        Inl error \<Rightarrow> (error, r, [])
      | Inr kinfo \<Rightarrow>
          let login = login_of kinfo;
              id' = (if persona_id kinfo \<noteq> PERSONA_ID_NONE \<and> persona_id kinfo \<noteq> 0
                    then persona_id kinfo else PERSONA_ID_NONE)
          in case persona_alloc id' login (persona_type kinfo) r of
               (None, error, r1) \<Rightarrow> (error, r1, [])
             | (Some persona, _, r1) \<Rightarrow>
                 (case (if persona_gid kinfo \<noteq> 0
                        then persona_set_gid persona (persona_gid kinfo) r1 else (0, r1)) of
                    (error, r2) \<Rightarrow>
                  if error \<noteq> 0 then alloc_out_error error (Some persona) r2 []
                  else
                    let kinfo' = (if persona_ngroups kinfo > 0 \<and> persona_gmuid kinfo = 0
                                  then kinfo\<lparr>persona_gmuid := KAUTH_UID_NONE\<rparr> else kinfo)
                    in case (if persona_ngroups kinfo > 0
                             then persona_set_groups persona (persona_groups kinfo')
                                    (persona_ngroups kinfo') (persona_gmuid kinfo') r2
                             else (0, r2)) of
                         (error, r3) \<Rightarrow>
                       if error \<noteq> 0 then alloc_out_error error (Some persona) r3 []
                       else case copyout env (U32 persona) idp [] of (error, w1) \<Rightarrow>
                         if error \<noteq> 0 then alloc_out_error error (Some persona) r3 w1
                         else case kpersona_copyout (after_copyout32 env idp persona)
                                     kinfo' infop w1 of
                                (error, w2) \<Rightarrow> (error, r3, w2)))"

subsection \<open>kpersona_dealloc_syscall\<close>

text \<open>Lines 145 to 171. The handler copies nothing out.\<close>

definition kpersona_dealloc_syscall :: "kenv \<Rightarrow> user_addr_t \<Rightarrow> registry \<Rightarrow> errno \<times> registry" where
  "kpersona_dealloc_syscall env idp r =
     (if \<not> is_superuser env then (EPERM, r)
      else case uin32 env idp of (error, persona_id') \<Rightarrow>
        if error \<noteq> 0 then (error, r)
        else case persona_lookup_and_invalidate persona_id' r of
               (None, r1) \<Rightarrow> (ESRCH, r1)
             | (Some persona, r1) \<Rightarrow>
                 (error, persona_put (Some persona) (persona_put (Some persona) r1)))"

subsection \<open>kpersona_info_syscall and kpersona_pidinfo_syscall\<close>

text \<open>
  The snapshot both handlers build (lines 211 to 225 and 253 to 263): the record is zeroed,
  then filled from the persona; persona_get_groups copies at most NGROUPS groups and
  strncpy at most MAXLOGNAME bytes of the login.
\<close>

definition persona_snapshot :: "persona \<Rightarrow> kpersona_info" where
  "persona_snapshot p =
     \<lparr>persona_info_version = PERSONA_INFO_V1,
      persona_id = pna_id p,
      persona_type = pna_type p,
      persona_gid = pna_gid p,
      persona_ngroups = of_nat (length (take NGROUPS (pna_groups p))),
      persona_groups =
        take NGROUPS (pna_groups p) @ replicate (NGROUPS - length (pna_groups p)) 0,
      persona_gmuid = pna_gmuid p,
      persona_name =
        take MAXLOGNAME (pna_login p) @
        replicate (MAXLOGNAME + 1 - length (take MAXLOGNAME (pna_login p))) (CHR 0x00)\<rparr>"

text \<open>
  Lines 187 to 232. The result is None when the handler would read through a reference
  that is not in the table.
\<close>

definition kpersona_info_syscall ::
  "kenv \<Rightarrow> user_addr_t \<Rightarrow> user_addr_t \<Rightarrow> registry \<Rightarrow> (errno \<times> registry \<times> writes) option" where
  "kpersona_info_syscall env idp infop r =
     (case uin32 env idp of (error, persona_id') \<Rightarrow>
        if error \<noteq> 0 then Some (error, r, [])
        else case persona_lookup persona_id' r of
               (None, r1) \<Rightarrow> Some (ESRCH, r1, [])
             | (Some persona, r1) \<Rightarrow>
                 (case persona_deref persona r1 of
                    None \<Rightarrow> None
                  | Some p \<Rightarrow>
                      let kinfo = persona_snapshot p;
                          r2 = persona_put (Some persona) r1
                      in case kpersona_copyout env kinfo infop [] of
                           (error, w) \<Rightarrow> Some (error, r2, w)))"

text \<open>Lines 234 to 270.\<close>

definition kpersona_pidinfo_syscall ::
  "kenv \<Rightarrow> user_addr_t \<Rightarrow> user_addr_t \<Rightarrow> registry \<Rightarrow> (errno \<times> registry \<times> writes) option" where
  "kpersona_pidinfo_syscall env idp infop r =
     (case uin32 env idp of (error, pid) \<Rightarrow>
        if error \<noteq> 0 then Some (error, r, [])
        else if \<not> is_superuser env \<and> pid \<noteq> cur_pid env then Some (EPERM, r, [])
        else case persona_proc_get pid r of
               (None, r1) \<Rightarrow> Some (ESRCH, r1, [])
             | (Some persona, r1) \<Rightarrow>
                 (case persona_deref persona r1 of
                    None \<Rightarrow> None
                  | Some p \<Rightarrow>
                      let kinfo = persona_snapshot p;
                          r2 = persona_put (Some persona) r1
                      in case kpersona_copyout env kinfo infop [] of
                           (error, w) \<Rightarrow> Some (error, r2, w)))"

subsection \<open>kpersona_find_syscall\<close>

text \<open>
  The copy-out loop of lines 308 to 316, from index i on. It ends with error 0 when the
  index reaches k_idlen or u_idlen, and with the error of the first copy-out that fails.
  None is the dereference of a NULL array or of a NULL slot.
\<close>

function copyout_ids ::
  "kenv \<Rightarrow> user_addr_t \<Rightarrow> uid_t option list option \<Rightarrow> size_t \<Rightarrow> size_t \<Rightarrow> nat \<Rightarrow> writes \<Rightarrow>
     (errno \<times> writes) option" where
  "copyout_ids env idp persona k_idlen u_idlen i w =
     (if i < unat k_idlen then
        if unat u_idlen \<le> i then Some (0, w)
        else case persona of
               None \<Rightarrow> None
             | Some arr \<Rightarrow>
                 (case arr ! i of
                    None \<Rightarrow> None
                  | Some h \<Rightarrow>
                      (case copyout env (U32 h) (idp + of_nat i * 4) w of (error, w') \<Rightarrow>
                         if error \<noteq> 0 then Some (error, w')
                         else copyout_ids env idp persona k_idlen u_idlen (Suc i) w'))
      else Some (0, w))"
  by pat_completeness auto
termination
  by (relation "measure (\<lambda>(env, idp, persona, k_idlen, u_idlen, i, w). unat k_idlen - i)") auto

text \<open>
  The label out (lines 318 to 327): every slot of the array is released, the array is
  freed, and k_idlen is copied out with the result of that copy-out ignored.
\<close>

definition find_out ::
  "kenv \<Rightarrow> user_addr_t \<Rightarrow> uid_t option list option \<Rightarrow> size_t \<Rightarrow> size_t \<Rightarrow> errno \<Rightarrow> registry \<Rightarrow>
     writes \<Rightarrow> errno \<times> registry \<times> writes" where
  "find_out env idlenp persona u_idlen k_idlen error r w =
     (error,
      (case persona of
         None \<Rightarrow> r
       | Some arr \<Rightarrow> foldl (\<lambda>r' i. persona_put (arr ! i) r') r [0..<unat u_idlen]),
      snd (copyout env (U64 k_idlen) idlenp w))"

text \<open>
  Lines 287 to 328: the handler from the copy-in of the record on, with u_idlen the limit
  as lines 280 to 285 leave it.
\<close>

definition find_with_limit ::
  "kenv \<Rightarrow> user_addr_t \<Rightarrow> user_addr_t \<Rightarrow> user_addr_t \<Rightarrow> size_t \<Rightarrow> registry \<Rightarrow>
     (errno \<times> registry \<times> writes) option" where
  "find_with_limit env infop idp idlenp u_idlen r =
     (case kpersona_copyin env infop of
        Inl error \<Rightarrow> Some (find_out env idlenp None u_idlen 0 error r [])
      | Inr kinfo \<Rightarrow>
          let login = login_of kinfo;
              persona = (if u_idlen > 0 \<and> \<not> malloc_fails env
                         then Some (replicate (unat u_idlen) None) else None)
          in if u_idlen > 0 \<and> persona = None
             then Some (find_out env idlenp persona u_idlen 0 ENOMEM r [])
             else case persona_find login (persona_id kinfo) persona u_idlen r of
                    (error, persona', k_idlen, r1) \<Rightarrow>
                      if error \<noteq> 0
                      then Some (find_out env idlenp persona' u_idlen k_idlen error r1 [])
                      else case copyout_ids env idp persona' k_idlen u_idlen 0 [] of
                             None \<Rightarrow> None
                           | Some (error, w) \<Rightarrow>
                               Some (find_out env idlenp persona' u_idlen k_idlen error r1 w))"

text \<open>Lines 272 to 328: the limit is copied in and clamped, then the search runs.\<close>

definition kpersona_find_syscall ::
  "kenv \<Rightarrow> user_addr_t \<Rightarrow> user_addr_t \<Rightarrow> user_addr_t \<Rightarrow> registry \<Rightarrow>
     (errno \<times> registry \<times> writes) option" where
  "kpersona_find_syscall env infop idp idlenp r =
     (case uin64 env idlenp of (error, u_idlen) \<Rightarrow>
        if error \<noteq> 0 then Some (error, r, [])
        else find_with_limit env infop idp idlenp
               (if u_idlen > ucast (g_max_personas r) then ucast (g_max_personas r) else u_idlen) r)"

subsection \<open>Notions used to state the properties\<close>

text \<open>The copy-outs of the ids with indices i up to j - 1 into the array at idp.\<close>

definition id_writes :: "user_addr_t \<Rightarrow> uid_t list \<Rightarrow> nat \<Rightarrow> nat \<Rightarrow> writes" where
  "id_writes idp ids i j = map (\<lambda>n. (idp + of_nat n * 4, U32 (ids ! n))) [i..<j]"

text \<open>The copy-out of the count at the label out, if it reaches user memory.\<close>

definition count_write :: "kenv \<Rightarrow> user_addr_t \<Rightarrow> size_t \<Rightarrow> writes" where
  "count_write env idlenp k = (if uout env idlenp = 0 then [(idlenp, U64 k)] else [])"

fun is_id_write :: "user_addr_t \<times> uval \<Rightarrow> bool" where
  "is_id_write (a, U32 h) = True"
| "is_id_write (a, v) = False"

text \<open>The references outstanding on the personas of the table.\<close>

definition refs_held :: "registry \<Rightarrow> nat" where
  "refs_held r = sum_list (map pna_refcount (all_personas r))"

subsection \<open>Example states\<close>

text \<open>
  A name field of MAXLOGNAME + 1 bytes holding a string, a request record, a persona, a
  registry over a table, and a caller: the record lies at address 0x1000, the id (or the
  array of ids) at 0x2000 and the length at 0x3000; every access to these succeeds.
\<close>

definition name_field :: "char list \<Rightarrow> char list" where
  "name_field s = s @ replicate (MAXLOGNAME + 1 - length s) (CHR 0x00)"

definition example_request :: "uid_t \<Rightarrow> char list \<Rightarrow> kpersona_info" where
  "example_request i s =
     \<lparr>persona_info_version = 1, persona_id = i, persona_type = 2, persona_gid = 0,
      persona_ngroups = 0, persona_groups = replicate 16 0, persona_gmuid = 0,
      persona_name = name_field s\<rparr>"

definition example_persona :: "uid_t \<Rightarrow> char list \<Rightarrow> nat \<Rightarrow> persona" where
  "example_persona i s n =
     \<lparr>pna_id = i, pna_type = 2, pna_login = s, pna_gid = 20, pna_groups = [],
      pna_gmuid = 0, pna_refcount = n, pna_valid = True\<rparr>"

definition example_registry :: "persona list \<Rightarrow> registry" where
  "example_registry tbl =
     \<lparr>all_personas = tbl, g_max_personas = 16, g_next_persona_id = 1000,
      proc_persona = (\<lambda>p. if p = 42 then Some 501 else None),
      persona_type_supported = (\<lambda>t. t = 1 \<or> t = 2 \<or> t = 3)\<rparr>"

definition example_env :: "bool \<Rightarrow> 32 word \<Rightarrow> 64 word \<Rightarrow> kpersona_info \<Rightarrow> kenv" where
  "example_env su i n req =
     \<lparr>is_superuser = su, cur_pid = 42,
      uin32 = (\<lambda>a. if a = 0x1000 then (0, persona_info_version req)
                    else if a = 0x2000 then (0, i) else (14, 0)),
      uin64 = (\<lambda>a. if a = 0x3000 then (0, n) else (14, 0)),
      uin_info = (\<lambda>a. if a = 0x1000 then (0, req) else (14, req)),
      uout = (\<lambda>a. 0),
      malloc_fails = False\<rparr>"

definition example_table :: "persona list" where
  "example_table =
     [example_persona 501 ''alice'' 1, example_persona 502 ''alice'' 1,
      example_persona 503 ''bob'' 1]"

section \<open>Properties of the handlers\<close>

declare copyout_ids.simps [simp del]

subsection \<open>Facts about the table\<close>

lemma pna_id_persona_get: "pna_id (persona_get p) = pna_id p"
  by (simp add: persona_get_def)

lemma release_get_valid: "pna_valid p \<Longrightarrow> release_entry (persona_get p) = [p]"
  by (simp add: release_entry_def persona_get_def Let_def)

lemma distinct_ids_same:
  "distinct (persona_ids r) \<Longrightarrow> P \<in> set (all_personas r) \<Longrightarrow> p \<in> set (all_personas r) \<Longrightarrow>
     pna_id p = pna_id P \<Longrightarrow> p = P"
  by (auto simp: persona_ids_def distinct_map dest: inj_onD)

lemma put_put_invalidate_entry:
  "concat (map (\<lambda>p. if pna_id p = i then release_entry p else [p])
     (concat (map (\<lambda>p. if pna_id p = i then release_entry p else [p])
        (map (\<lambda>p. if pna_id p = i \<and> pna_valid p
                 then (persona_get p)\<lparr>pna_valid := False\<rparr> else p) xs))))
   = concat (map (\<lambda>p. if pna_id p = i then
        (if pna_valid p
         then (if pna_refcount p \<le> 1 then []
               else [p\<lparr>pna_refcount := pna_refcount p - 1, pna_valid := False\<rparr>])
         else concat (map release_entry (release_entry p))) else [p]) xs)"
  by (induction xs) (auto simp: release_entry_def persona_get_def Let_def)

lemma dealloc_net_effect:
  assumes "distinct (persona_ids r)" "P \<in> set (all_personas r)" "pna_id P = i" "pna_valid P"
  shows "all_personas
           (persona_put (Some i) (persona_put (Some i) (snd (persona_lookup_and_invalidate i r))))
     = concat (map (\<lambda>p. if p = P then
          (if pna_refcount P \<le> 1 then []
           else [P\<lparr>pna_refcount := pna_refcount P - 1, pna_valid := False\<rparr>])
        else [p]) (all_personas r))"
proof -
  have ex: "\<exists>p \<in> set (all_personas r). pna_id p = i \<and> pna_valid p" using assms by blast
  have same: "\<And>p. p \<in> set (all_personas r) \<Longrightarrow> pna_id p = i \<longleftrightarrow> p = P"
    using assms distinct_ids_same by blast
  have "all_personas
          (persona_put (Some i) (persona_put (Some i) (snd (persona_lookup_and_invalidate i r))))
    = concat (map (\<lambda>p. if pna_id p = i then
        (if pna_valid p
         then (if pna_refcount p \<le> 1 then []
               else [p\<lparr>pna_refcount := pna_refcount p - 1, pna_valid := False\<rparr>])
         else concat (map release_entry (release_entry p))) else [p]) (all_personas r))"
    using ex
    by (simp add: persona_lookup_and_invalidate_def persona_put_def put_put_invalidate_entry
          del: map_map)
  also have "\<dots> = concat (map (\<lambda>p. if p = P then
          (if pna_refcount P \<le> 1 then []
           else [P\<lparr>pna_refcount := pna_refcount P - 1, pna_valid := False\<rparr>])
        else [p]) (all_personas r))"
    by (rule arg_cong [where f = concat], rule map_cong) (use same assms in auto)
  finally show ?thesis .
qed

subsection \<open>Deallocation\<close>

text \<open>
  C1, as amended. A call of kpersona_dealloc_syscall by an unprivileged caller fails with
  EPERM, and a call by a privileged caller whose copy-in of the id fails returns the error
  of the copy-in; both return before any lookup, whether or not an active persona with
  the id exists. A call returns 0 exactly when the caller is privileged, the id is copied
  in and an active persona with that id exists. In that case the call invalidates the
  persona (the lookup returns an acquired reference and leaves no valid entry with the
  id), then releases that reference exactly twice. With unique ids the persona, which
  held n references, is left invalid with n - 1 references, or leaves the table when n is
  at most 1. If the caller is privileged, the id is copied in and no active persona with
  that id exists, the call fails with ESRCH; in this and in every other failing call the
  registry is as before: nothing is released.
\<close>

theorem kpersona_dealloc_syscall_two_releases:
  assumes rd: "uin32 env idp = (e0, i)"
  shows
    "(\<not> is_superuser env \<longrightarrow> kpersona_dealloc_syscall env idp r = (EPERM, r)) \<and>
     (is_superuser env \<and> e0 \<noteq> 0 \<longrightarrow> kpersona_dealloc_syscall env idp r = (e0, r)) \<and>
     (fst (kpersona_dealloc_syscall env idp r) = 0 \<longleftrightarrow>
        is_superuser env \<and> e0 = 0 \<and> (\<exists>p \<in> set (all_personas r). pna_id p = i \<and> pna_valid p)) \<and>
     (is_superuser env \<and> e0 = 0 \<longrightarrow>
        (if \<exists>p \<in> set (all_personas r). pna_id p = i \<and> pna_valid p
         then \<exists>r1. persona_lookup_and_invalidate i r = (Some i, r1) \<and>
                (\<forall>p \<in> set (all_personas r1). pna_id p = i \<longrightarrow> \<not> pna_valid p) \<and>
                kpersona_dealloc_syscall env idp r =
                  (0, persona_put (Some i) (persona_put (Some i) r1))
         else persona_lookup_and_invalidate i r = (None, r) \<and>
              kpersona_dealloc_syscall env idp r = (ESRCH, r))) \<and>
     (fst (kpersona_dealloc_syscall env idp r) \<noteq> 0 \<longrightarrow>
        snd (kpersona_dealloc_syscall env idp r) = r) \<and>
     (\<forall>P \<in> set (all_personas r).
        is_superuser env \<and> e0 = 0 \<and> distinct (persona_ids r) \<and> pna_id P = i \<and> pna_valid P \<longrightarrow>
        all_personas (snd (kpersona_dealloc_syscall env idp r)) =
          concat (map (\<lambda>p. if p = P then
              (if pna_refcount P \<le> 1 then []
               else [P\<lparr>pna_refcount := pna_refcount P - 1, pna_valid := False\<rparr>])
            else [p]) (all_personas r)))"
proof (intro conjI)
  show "\<not> is_superuser env \<longrightarrow> kpersona_dealloc_syscall env idp r = (EPERM, r)"
    by (simp add: kpersona_dealloc_syscall_def)
  show "is_superuser env \<and> e0 \<noteq> 0 \<longrightarrow> kpersona_dealloc_syscall env idp r = (e0, r)"
    using rd by (simp add: kpersona_dealloc_syscall_def)
  show "fst (kpersona_dealloc_syscall env idp r) = 0 \<longleftrightarrow>
        is_superuser env \<and> e0 = 0 \<and> (\<exists>p \<in> set (all_personas r). pna_id p = i \<and> pna_valid p)"
    using rd
    by (auto simp add: kpersona_dealloc_syscall_def persona_lookup_and_invalidate_def
          EPERM_def ESRCH_def)
  show "is_superuser env \<and> e0 = 0 \<longrightarrow>
        (if \<exists>p \<in> set (all_personas r). pna_id p = i \<and> pna_valid p
         then \<exists>r1. persona_lookup_and_invalidate i r = (Some i, r1) \<and>
                (\<forall>p \<in> set (all_personas r1). pna_id p = i \<longrightarrow> \<not> pna_valid p) \<and>
                kpersona_dealloc_syscall env idp r =
                  (0, persona_put (Some i) (persona_put (Some i) r1))
         else persona_lookup_and_invalidate i r = (None, r) \<and>
              kpersona_dealloc_syscall env idp r = (ESRCH, r))"
    using rd
    by (auto simp add: kpersona_dealloc_syscall_def persona_lookup_and_invalidate_def)
  show "fst (kpersona_dealloc_syscall env idp r) \<noteq> 0 \<longrightarrow>
        snd (kpersona_dealloc_syscall env idp r) = r"
    using rd
    by (auto simp add: kpersona_dealloc_syscall_def persona_lookup_and_invalidate_def)
  show "\<forall>P \<in> set (all_personas r).
        is_superuser env \<and> e0 = 0 \<and> distinct (persona_ids r) \<and> pna_id P = i \<and> pna_valid P \<longrightarrow>
        all_personas (snd (kpersona_dealloc_syscall env idp r)) =
          concat (map (\<lambda>p. if p = P then
              (if pna_refcount P \<le> 1 then []
               else [P\<lparr>pna_refcount := pna_refcount P - 1, pna_valid := False\<rparr>])
            else [p]) (all_personas r))"
  proof (intro ballI impI)
    fix P
    assume P: "P \<in> set (all_personas r)"
      and h: "is_superuser env \<and> e0 = 0 \<and> distinct (persona_ids r) \<and> pna_id P = i \<and> pna_valid P"
    then have ex: "\<exists>p \<in> set (all_personas r). pna_id p = i \<and> pna_valid p" by blast
    have "kpersona_dealloc_syscall env idp r =
            (0, persona_put (Some i) (persona_put (Some i)
                  (snd (persona_lookup_and_invalidate i r))))"
      using rd h ex
      by (simp add: kpersona_dealloc_syscall_def persona_lookup_and_invalidate_def)
    then show "all_personas (snd (kpersona_dealloc_syscall env idp r)) =
          concat (map (\<lambda>p. if p = P then
              (if pna_refcount P \<le> 1 then []
               else [P\<lparr>pna_refcount := pna_refcount P - 1, pna_valid := False\<rparr>])
            else [p]) (all_personas r))"
      using dealloc_net_effect[of r P i] P h by simp
  qed
qed

theorem kpersona_dealloc_syscall_two_releases_witness:
  "kpersona_dealloc_syscall (example_env True 501 0 (example_request 0 []))
      0x2000 (example_registry [example_persona 501 ''alice'' 1, example_persona 502 ''bob'' 3])
     = (0, example_registry [example_persona 502 ''bob'' 3]) \<and>
   kpersona_dealloc_syscall (example_env True 502 0 (example_request 0 []))
      0x2000 (example_registry [example_persona 501 ''alice'' 1, example_persona 502 ''bob'' 3])
     = (0, example_registry
             [example_persona 501 ''alice'' 1,
              (example_persona 502 ''bob'' 2)\<lparr>pna_valid := False\<rparr>]) \<and>
   kpersona_dealloc_syscall (example_env True 777 0 (example_request 0 []))
      0x2000 (example_registry [example_persona 501 ''alice'' 1, example_persona 502 ''bob'' 3])
     = (ESRCH, example_registry [example_persona 501 ''alice'' 1, example_persona 502 ''bob'' 3]) \<and>
   kpersona_dealloc_syscall (example_env False 501 0 (example_request 0 []))
      0x2000 (example_registry [example_persona 501 ''alice'' 1, example_persona 502 ''bob'' 3])
     = (EPERM, example_registry [example_persona 501 ''alice'' 1, example_persona 502 ''bob'' 3])"
proof -
  let ?r = "example_registry [example_persona 501 ''alice'' 1, example_persona 502 ''bob'' 3]"
  have rd: "uin32 (example_env su i 0 (example_request 0 [])) 0x2000 = (0, i)" for su i
    by (simp add: example_env_def)
  show ?thesis
    using kpersona_dealloc_syscall_two_releases[OF rd[of True 501], where r = ?r]
      kpersona_dealloc_syscall_two_releases[OF rd[of True 502], where r = ?r]
      kpersona_dealloc_syscall_two_releases[OF rd[of True 777], where r = ?r]
      kpersona_dealloc_syscall_two_releases[OF rd[of False 501], where r = ?r]
    by (simp add: example_registry_def example_persona_def persona_lookup_and_invalidate_def
          persona_put_def release_entry_def persona_get_def persona_ids_def example_env_def)
qed

theorem kpersona_dealloc_syscall_unprivileged_counterexample:
  "\<not> is_superuser (example_env False 777 0 (example_request 0 [])) \<and>
   uin32 (example_env False 777 0 (example_request 0 [])) 0x2000 = (0, 777) \<and>
   persona_lookup_and_invalidate 777
      (example_registry [example_persona 501 ''alice'' 1, example_persona 502 ''bob'' 3])
     = (None, example_registry [example_persona 501 ''alice'' 1, example_persona 502 ''bob'' 3]) \<and>
   kpersona_dealloc_syscall (example_env False 777 0 (example_request 0 []))
      0x2000 (example_registry [example_persona 501 ''alice'' 1, example_persona 502 ''bob'' 3])
     = (EPERM, example_registry [example_persona 501 ''alice'' 1, example_persona 502 ''bob'' 3]) \<and>
   EPERM \<noteq> ESRCH"
  by (simp add: example_env_def kpersona_dealloc_syscall_def persona_lookup_and_invalidate_def
      example_registry_def example_persona_def EPERM_def ESRCH_def)

subsection \<open>Facts about errors and references\<close>

lemma errno_nonzero [simp]:
  "EPERM \<noteq> 0" "ESRCH \<noteq> 0" "ENOMEM \<noteq> 0" "EFAULT \<noteq> 0" "EEXIST \<noteq> 0" "EINVAL \<noteq> 0"
  by (simp_all add: EPERM_def ESRCH_def ENOMEM_def EFAULT_def EEXIST_def EINVAL_def)

lemma persona_deref_Some_iff:
  "(\<exists>P. persona_deref h r = Some P) \<longleftrightarrow> h \<in> set (persona_ids r)"
proof -
  have "(\<exists>P. persona_deref h r = Some P) \<longleftrightarrow> persona_deref h r \<noteq> None" by auto
  also have "\<dots> \<longleftrightarrow> (\<exists>p \<in> set (all_personas r). pna_id p = h)"
    by (auto simp add: persona_deref_def find_None_iff)
  also have "\<dots> \<longleftrightarrow> h \<in> set (persona_ids r)" by (auto simp: persona_ids_def)
  finally show ?thesis .
qed

lemma ids_map_get: "map pna_id (map (\<lambda>p. if c p then persona_get p else p) xs) = map pna_id xs"
  by (induction xs) (simp_all add: pna_id_persona_get)

lemma persona_lookup_deref:
  assumes "persona_lookup i r = (Some h, r1)"
  shows "\<exists>P. persona_deref h r1 = Some P"
proof -
  from assms have ex: "\<exists>p \<in> set (all_personas r). pna_id p = i \<and> pna_valid p"
    and h: "h = i"
    and r1: "r1 = r\<lparr>all_personas :=
                map (\<lambda>p. if pna_id p = i \<and> pna_valid p then persona_get p else p)
                  (all_personas r)\<rparr>"
    by (auto simp: persona_lookup_def split: if_splits)
  have "persona_ids r1 = persona_ids r" unfolding r1 persona_ids_def
    by (simp add: ids_map_get del: map_map)
  moreover have "i \<in> set (persona_ids r)" using ex by (auto simp: persona_ids_def)
  ultimately show ?thesis using h by (simp add: persona_deref_Some_iff)
qed

lemma persona_proc_get_deref:
  assumes "persona_proc_get pid r = (Some h, r1)"
  shows "\<exists>P. persona_deref h r1 = Some P"
proof -
  from assms have h: "h \<in> set (persona_ids r)"
    and r1: "r1 = r\<lparr>all_personas :=
                map (\<lambda>p. if pna_id p = h then persona_get p else p) (all_personas r)\<rparr>"
    by (auto simp: persona_proc_get_def split: if_splits option.splits)
  have "persona_ids r1 = persona_ids r" unfolding r1 persona_ids_def
    by (simp add: ids_map_get del: map_map)
  then show ?thesis using h by (simp add: persona_deref_Some_iff)
qed

subsection \<open>Query by owner\<close>

text \<open>
  C8. In a call of kpersona_pidinfo_syscall whose pid is copied in, a caller that is
  neither privileged nor the process it asks about gets EPERM with the registry untouched
  and nothing copied out, so before any lookup. A privileged caller, and a process asking
  about itself, reach the lookup: the call fails with ESRCH when the process has adopted
  no persona, and otherwise copies out the snapshot of the persona found and releases the
  reference.
\<close>

theorem kpersona_pidinfo_syscall_permission:
  assumes "uin32 env idp = (0, pid)"
  shows
    "(\<not> is_superuser env \<and> pid \<noteq> cur_pid env \<longrightarrow>
        kpersona_pidinfo_syscall env idp infop r = Some (EPERM, r, [])) \<and>
     (is_superuser env \<or> pid = cur_pid env \<longrightarrow>
        (case persona_proc_get pid r of
           (None, r1) \<Rightarrow> kpersona_pidinfo_syscall env idp infop r = Some (ESRCH, r1, [])
         | (Some h, r1) \<Rightarrow>
             \<exists>P. persona_deref h r1 = Some P \<and>
                 kpersona_pidinfo_syscall env idp infop r =
                   Some (fst (kpersona_copyout env (persona_snapshot P) infop []),
                         persona_put (Some h) r1,
                         snd (kpersona_copyout env (persona_snapshot P) infop []))))"
proof (intro conjI impI)
  assume "\<not> is_superuser env \<and> pid \<noteq> cur_pid env"
  then show "kpersona_pidinfo_syscall env idp infop r = Some (EPERM, r, [])"
    using assms by (simp add: kpersona_pidinfo_syscall_def)
next
  assume ok: "is_superuser env \<or> pid = cur_pid env"
  obtain ph r1 where pg: "persona_proc_get pid r = (ph, r1)" by (cases "persona_proc_get pid r")
  show "case persona_proc_get pid r of
           (None, r1) \<Rightarrow> kpersona_pidinfo_syscall env idp infop r = Some (ESRCH, r1, [])
         | (Some h, r1) \<Rightarrow>
             \<exists>P. persona_deref h r1 = Some P \<and>
                 kpersona_pidinfo_syscall env idp infop r =
                   Some (fst (kpersona_copyout env (persona_snapshot P) infop []),
                         persona_put (Some h) r1,
                         snd (kpersona_copyout env (persona_snapshot P) infop []))"
  proof (cases ph)
    case None
    then show ?thesis using assms ok pg by (auto simp: kpersona_pidinfo_syscall_def)
  next
    case (Some h)
    with pg persona_proc_get_deref obtain P where "persona_deref h r1 = Some P" by blast
    then show ?thesis using assms ok pg Some
      by (auto simp: kpersona_pidinfo_syscall_def Let_def split: prod.splits)
  qed
qed

theorem kpersona_pidinfo_syscall_permission_witness:
  "kpersona_pidinfo_syscall (example_env False 43 0 (example_request 0 [])) 0x2000 0x1000
      (example_registry [example_persona 501 ''alice'' 1])
     = Some (EPERM, example_registry [example_persona 501 ''alice'' 1], []) \<and>
   kpersona_pidinfo_syscall (example_env False 42 0 (example_request 0 [])) 0x2000 0x1000
      (example_registry [example_persona 501 ''alice'' 1])
     = Some (0, example_registry [example_persona 501 ''alice'' 1],
             [(0x1000, UInfo (persona_snapshot (example_persona 501 ''alice'' 2)))]) \<and>
   kpersona_pidinfo_syscall (example_env True 43 0 (example_request 0 [])) 0x2000 0x1000
      (example_registry [example_persona 501 ''alice'' 1])
     = Some (ESRCH, example_registry [example_persona 501 ''alice'' 1], [])"
proof -
  let ?r = "example_registry [example_persona 501 ''alice'' 1]"
  have rd: "uin32 (example_env su i 0 (example_request 0 [])) 0x2000 = (0, i)" for i su
    by (simp add: example_env_def)
  show ?thesis
    using kpersona_pidinfo_syscall_permission[OF rd[of False 43], where r = ?r and infop = "0x1000"]
      kpersona_pidinfo_syscall_permission[OF rd[of False 42], where r = ?r and infop = "0x1000"]
      kpersona_pidinfo_syscall_permission[OF rd[of True 43], where r = ?r and infop = "0x1000"]
    by (simp add: example_env_def example_registry_def example_persona_def example_request_def
        persona_proc_get_def persona_ids_def persona_deref_def persona_get_def persona_put_def
        release_entry_def kpersona_copyout_def copyout_def PERSONA_INFO_V1_def persona_snapshot_def)
qed

lemma kpersona_copyin_version:
  "uin32 env infop = (0, v) \<Longrightarrow> v \<noteq> PERSONA_INFO_V1 \<Longrightarrow> kpersona_copyin env infop = Inl EINVAL"
  by (simp add: kpersona_copyin_def)

lemma kpersona_copyout_version:
  "uin32 env infop = (0, v) \<Longrightarrow> v \<noteq> PERSONA_INFO_V1 \<Longrightarrow>
     kpersona_copyout env kinfo infop w = (EINVAL, w)"
  by (simp add: kpersona_copyout_def)

lemma find_out_None: "find_out env idlenp None u k error r w = (error, r, w @ count_write env idlenp k)"
  by (simp add: find_out_def copyout_def count_write_def)

subsection \<open>The version tag\<close>

text \<open>
  C6, as amended. If the version tag read at infop is not PERSONA_INFO_V1, then
  kpersona_copyin and kpersona_copyout return EINVAL and transfer nothing, and each of the
  four handlers fails without transferring the record: the record is never read (the
  result does not depend on what a copy-in of it would yield) and no record is copied
  out. The error is EINVAL as soon as the handler reaches the record: in allocate for a
  privileged caller (EPERM otherwise), in the two queries when the id is copied in, the
  caller is allowed and a persona is found (otherwise the copy-in error, EPERM or ESRCH),
  in find when the limit is copied in (otherwise the copy-in error).
\<close>

theorem version_mismatch_fails_without_transfer:
  assumes "uin32 env infop = (0, v)" and "v \<noteq> PERSONA_INFO_V1"
  shows
    "kpersona_copyin env infop = Inl EINVAL \<and>
     kpersona_copyout env kinfo infop w = (EINVAL, w) \<and>
     kpersona_alloc_syscall env infop idp r = (if is_superuser env then EINVAL else EPERM, r, []) \<and>
     kpersona_alloc_syscall (env\<lparr>uin_info := f\<rparr>) infop idp r = kpersona_alloc_syscall env infop idp r \<and>
     (\<exists>e r'. kpersona_info_syscall env idp infop r = Some (e, r', []) \<and> e \<noteq> 0 \<and>
        (fst (uin32 env idp) = 0 \<and> fst (persona_lookup (snd (uin32 env idp)) r) \<noteq> None
           \<longrightarrow> e = EINVAL)) \<and>
     (\<exists>e r'. kpersona_pidinfo_syscall env idp infop r = Some (e, r', []) \<and> e \<noteq> 0 \<and>
        (fst (uin32 env idp) = 0 \<and> (is_superuser env \<or> snd (uin32 env idp) = cur_pid env) \<and>
         fst (persona_proc_get (snd (uin32 env idp)) r) \<noteq> None
           \<longrightarrow> e = EINVAL)) \<and>
     (\<exists>e. kpersona_find_syscall env infop idp idlenp r =
             Some (e, r, if fst (uin64 env idlenp) = 0 then count_write env idlenp 0 else []) \<and>
          e \<noteq> 0 \<and> (fst (uin64 env idlenp) = 0 \<longrightarrow> e = EINVAL)) \<and>
     kpersona_find_syscall (env\<lparr>uin_info := f\<rparr>) infop idp idlenp r =
       kpersona_find_syscall env infop idp idlenp r"
proof -
  note ci = kpersona_copyin_version[OF assms]
  note co = kpersona_copyout_version[OF assms]
  have ci': "kpersona_copyin (env\<lparr>uin_info := f\<rparr>) infop = Inl EINVAL"
    using assms by (simp add: kpersona_copyin_def)
  have alloc: "kpersona_alloc_syscall env infop idp r =
                 (if is_superuser env then EINVAL else EPERM, r, [])"
    by (simp add: kpersona_alloc_syscall_def ci)
  have alloc': "kpersona_alloc_syscall (env\<lparr>uin_info := f\<rparr>) infop idp r =
                  kpersona_alloc_syscall env infop idp r"
    by (simp add: kpersona_alloc_syscall_def ci ci')
  have info: "\<exists>e r'. kpersona_info_syscall env idp infop r = Some (e, r', []) \<and> e \<noteq> 0 \<and>
        (fst (uin32 env idp) = 0 \<and> fst (persona_lookup (snd (uin32 env idp)) r) \<noteq> None
           \<longrightarrow> e = EINVAL)"
  proof -
    obtain e0 i where rd: "uin32 env idp = (e0, i)" by (cases "uin32 env idp")
    obtain ph r1 where lk: "persona_lookup i r = (ph, r1)" by (cases "persona_lookup i r")
    show ?thesis
    proof (cases "e0 \<noteq> 0")
      case True
      then show ?thesis using rd by (simp add: kpersona_info_syscall_def)
    next
      case e0: False
      show ?thesis
      proof (cases ph)
        case None
        then show ?thesis using rd e0 lk by (simp add: kpersona_info_syscall_def)
      next
        case (Some h)
        with lk persona_lookup_deref obtain P where "persona_deref h r1 = Some P" by blast
        then show ?thesis using rd e0 lk Some co
          by (simp add: kpersona_info_syscall_def Let_def)
      qed
    qed
  qed
  have pidinfo: "\<exists>e r'. kpersona_pidinfo_syscall env idp infop r = Some (e, r', []) \<and> e \<noteq> 0 \<and>
        (fst (uin32 env idp) = 0 \<and> (is_superuser env \<or> snd (uin32 env idp) = cur_pid env) \<and>
         fst (persona_proc_get (snd (uin32 env idp)) r) \<noteq> None
           \<longrightarrow> e = EINVAL)"
  proof -
    obtain e0 i where rd: "uin32 env idp = (e0, i)" by (cases "uin32 env idp")
    obtain ph r1 where lk: "persona_proc_get i r = (ph, r1)" by (cases "persona_proc_get i r")
    show ?thesis
    proof (cases "e0 \<noteq> 0")
      case True
      then show ?thesis using rd by (simp add: kpersona_pidinfo_syscall_def)
    next
      case e0: False
      show ?thesis
      proof (cases "\<not> is_superuser env \<and> i \<noteq> cur_pid env")
        case True
        then show ?thesis using rd e0 by (simp add: kpersona_pidinfo_syscall_def)
      next
        case ok: False
        show ?thesis
        proof (cases ph)
          case None
          then show ?thesis using rd e0 ok lk by (auto simp add: kpersona_pidinfo_syscall_def)
        next
          case (Some h)
          with lk persona_proc_get_deref obtain P where "persona_deref h r1 = Some P" by blast
          then show ?thesis using rd e0 ok lk Some co
            by (auto simp add: kpersona_pidinfo_syscall_def Let_def)
        qed
      qed
    qed
  qed
  have find: "\<exists>e. kpersona_find_syscall env infop idp idlenp r =
             Some (e, r, if fst (uin64 env idlenp) = 0 then count_write env idlenp 0 else []) \<and>
          e \<noteq> 0 \<and> (fst (uin64 env idlenp) = 0 \<longrightarrow> e = EINVAL)"
    by (cases "uin64 env idlenp")
      (simp add: kpersona_find_syscall_def find_with_limit_def ci find_out_None)
  have find': "kpersona_find_syscall (env\<lparr>uin_info := f\<rparr>) infop idp idlenp r =
       kpersona_find_syscall env infop idp idlenp r"
    by (cases "uin64 env idlenp")
      (simp add: kpersona_find_syscall_def find_with_limit_def ci ci' find_out_None count_write_def)
  show ?thesis using ci co alloc alloc' info pidinfo find find' by blast
qed

theorem version_mismatch_fails_without_transfer_witness:
  "uin32 (example_env True 501 5 ((example_request 0 ''svc'')\<lparr>persona_info_version := 2\<rparr>)) 0x1000
     = (0, 2) \<and> (2 :: 32 word) \<noteq> PERSONA_INFO_V1 \<and>
   kpersona_alloc_syscall (example_env True 501 5 ((example_request 0 ''svc'')\<lparr>persona_info_version := 2\<rparr>))
       0x1000 0x2000 (example_registry [example_persona 501 ''alice'' 1])
     = (EINVAL, example_registry [example_persona 501 ''alice'' 1], []) \<and>
   kpersona_find_syscall (example_env True 501 5 ((example_request 0 ''svc'')\<lparr>persona_info_version := 2\<rparr>))
       0x1000 0x2000 0x3000 (example_registry [example_persona 501 ''alice'' 1])
     = Some (EINVAL, example_registry [example_persona 501 ''alice'' 1], [(0x3000, U64 0)]) \<and>
   kpersona_copyout (example_env True 501 5 ((example_request 0 ''svc'')\<lparr>persona_info_version := 2\<rparr>))
       (persona_snapshot (example_persona 501 ''alice'' 1)) 0x1000 [] = (EINVAL, [])"
proof -
  let ?env = "example_env True 501 5 ((example_request 0 ''svc'')\<lparr>persona_info_version := 2\<rparr>)"
  have v: "uin32 ?env 0x1000 = (0, 2)" by (simp add: example_env_def example_request_def)
  have n: "(2 :: 32 word) \<noteq> PERSONA_INFO_V1" by (simp add: PERSONA_INFO_V1_def)
  have l: "fst (uin64 ?env 0x3000) = 0" "uout ?env 0x3000 = 0" "is_superuser ?env"
    by (simp_all add: example_env_def)
  show ?thesis
    using version_mismatch_fails_without_transfer[OF v n,
        where r = "example_registry [example_persona 501 ''alice'' 1]" and idp = "0x2000"
          and idlenp = "0x3000" and kinfo = "persona_snapshot (example_persona 501 ''alice'' 1)"
          and w = "[]"] v n l
    by (auto simp add: count_write_def)
qed

theorem version_mismatch_not_found_counterexample:
  "uin32 (example_env True 777 0 ((example_request 0 ''svc'')\<lparr>persona_info_version := 2\<rparr>)) 0x1000
     = (0, 2) \<and> (2 :: 32 word) \<noteq> PERSONA_INFO_V1 \<and>
   kpersona_info_syscall (example_env True 777 0 ((example_request 0 ''svc'')\<lparr>persona_info_version := 2\<rparr>))
       0x2000 0x1000 (example_registry [example_persona 501 ''alice'' 1])
     = Some (ESRCH, example_registry [example_persona 501 ''alice'' 1], []) \<and>
   ESRCH \<noteq> EINVAL"
  by (simp add: example_env_def example_request_def PERSONA_INFO_V1_def kpersona_info_syscall_def
      persona_lookup_def example_registry_def example_persona_def ESRCH_def EINVAL_def)

subsection \<open>Facts about names and allocation\<close>

lemma c_string_terminate:
  "n < length buf \<Longrightarrow> c_string (buf[n := CHR 0x00]) = take n (c_string buf)"
proof (induction buf arbitrary: n)
  case Nil
  then show ?case by simp
next
  case (Cons c cs)
  then show ?case by (cases n) (auto simp: c_string_def)
qed

lemma replicate_update_same: "(replicate n x)[i := x] = replicate n x"
  by (induction n arbitrary: i) (auto split: nat.splits)

lemma name_field_terminated:
  "length s \<le> MAXLOGNAME \<Longrightarrow> (name_field s)[MAXLOGNAME := CHR 0x00] = name_field s"
  by (simp add: name_field_def list_update_append replicate_update_same)

lemma c_string_name_field: "CHR 0x00 \<notin> set s \<Longrightarrow> c_string (name_field s) = s"
  by (auto simp: name_field_def c_string_def takeWhile_append takeWhile_replicate
      intro: takeWhile_eq_all_conv[THEN iffD2])

lemma login_of_example_request:
  "CHR 0x00 \<notin> set s \<Longrightarrow> login_of (example_request i s) = (if s = [] then None else Some s)"
  by (cases s) (auto simp: login_of_def example_request_def c_string_name_field,
      auto simp: name_field_def MAXLOGNAME_def)

lemma kpersona_copyin_example:
  "length s \<le> MAXLOGNAME \<Longrightarrow>
     kpersona_copyin (example_env su i n (example_request q s)) 0x1000 = Inr (example_request q s)"
  by (simp add: kpersona_copyin_def example_env_def example_request_def PERSONA_INFO_V1_def
      name_field_terminated)



lemma overlay32_disjoint: "\<not> b - a < 4 \<Longrightarrow> \<not> a - b < 4 \<Longrightarrow> overlay32 a v b old = old"
  by (simp add: overlay32_def)

lemma overlay32_same: "overlay32 a v a old = v"
  by (simp add: overlay32_def)

lemma after_copyout32_fields [simp]:
  "uout (after_copyout32 env a v) = uout env"
  "is_superuser (after_copyout32 env a v) = is_superuser env"
  "uin32 (after_copyout32 env a v) b = (fst (uin32 env b), overlay32 a v b (snd (uin32 env b)))"
  by (simp_all add: after_copyout32_def)

lemma copyout_after_copyout32: "copyout (after_copyout32 env a v) x b w = copyout env x b w"
  by (simp add: copyout_def)

lemma alloc_syscall_created:
  assumes su: "is_superuser env"
    and cin: "kpersona_copyin env infop = Inr kinfo"
    and pa: "persona_alloc
               (if persona_id kinfo \<noteq> PERSONA_ID_NONE \<and> persona_id kinfo \<noteq> 0
                then persona_id kinfo else PERSONA_ID_NONE)
               (login_of kinfo) (persona_type kinfo) r = (Some h, e1, r1)"
    and r2: "r2 = (if persona_gid kinfo \<noteq> 0
                   then snd (persona_set_gid h (persona_gid kinfo) r1) else r1)"
    and k': "kinfo' = (if persona_ngroups kinfo > 0 \<and> persona_gmuid kinfo = 0
                       then kinfo\<lparr>persona_gmuid := KAUTH_UID_NONE\<rparr> else kinfo)"
    and r3: "r3 = (if persona_ngroups kinfo > 0
                   then snd (persona_set_groups h (persona_groups kinfo') (persona_ngroups kinfo')
                               (persona_gmuid kinfo') r2)
                   else r2)"
  shows "kpersona_alloc_syscall env infop idp r =
     (if persona_ngroups kinfo > 0 \<and> NGROUPS < unat (persona_ngroups kinfo)
      then (EINVAL, persona_put (Some h) r2, [])
      else if uout env idp \<noteq> 0 then (uout env idp, persona_put (Some h) r3, [])
      else (fst (kpersona_copyout (after_copyout32 env idp h) kinfo' infop [(idp, U32 h)]), r3,
            snd (kpersona_copyout (after_copyout32 env idp h) kinfo' infop [(idp, U32 h)])))"
  using su cin pa
  by (cases "persona_ngroups kinfo > 0"; cases "persona_gmuid kinfo = 0";
      cases "persona_gid kinfo = 0"; cases "NGROUPS < unat (persona_ngroups kinfo)";
      cases "uout env idp = 0")
    (simp_all add: kpersona_alloc_syscall_def Let_def r2 k' r3 persona_set_gid_def
      persona_set_groups_def alloc_out_error_def copyout_def split: prod.splits
      cong del: if_weak_cong)

lemma sentinels_nonzero [simp]:
  "PERSONA_ID_NONE \<noteq> 0" "0 \<noteq> PERSONA_ID_NONE" "KAUTH_UID_NONE \<noteq> 0"
  by (simp_all add: PERSONA_ID_NONE_def KAUTH_UID_NONE_def)

lemma next_unused_example: "next_unused_id (example_registry []) = Some 1000"
  by (simp add: next_unused_id_def example_registry_def persona_ids_def)





lemma persona_alloc_example_none:
  "persona_alloc PERSONA_ID_NONE (Some s) 2 (example_registry [])
     = (Some 1000, 0, (example_registry [new_persona 1000 (Some s) 2])\<lparr>g_next_persona_id := 1001\<rparr>)"
  by (simp add: persona_alloc_def next_unused_example)
    (simp add: example_registry_def persona_ids_def)


















text \<open>
  The id copied over the record. When idp is the address of the record, the copy-out of
  the id (line 126) overwrites the version tag, and kpersona_copyout (line 129) reads the
  id back as the tag: the call fails with EINVAL after the persona has been created and
  its id copied out, and the persona stays in the table.
\<close>

lemma kpersona_alloc_syscall_id_over_record:
  "kpersona_alloc_syscall (example_env True 0 0 (example_request PERSONA_ID_NONE ''svc''))
      0x1000 0x1000 (example_registry [])
     = (EINVAL,
        (example_registry [new_persona 1000 (Some ''svc'') 2])\<lparr>g_next_persona_id := 1001\<rparr>,
        [(0x1000, U32 1000)])"
proof -
  let ?req = "example_request PERSONA_ID_NONE ''svc''"
  let ?env = "example_env True 0 0 ?req"
  let ?r1 = "(example_registry [new_persona 1000 (Some ''svc'') 2])\<lparr>g_next_persona_id := 1001\<rparr>"
  have f: "persona_id ?req = PERSONA_ID_NONE" "persona_type ?req = 2" "persona_gid ?req = 0"
    "persona_ngroups ?req = 0"
    by (simp_all add: example_request_def)
  have lg: "login_of ?req = Some ''svc''"
    by (simp add: login_of_example_request)
  have pa: "persona_alloc
               (if persona_id ?req \<noteq> PERSONA_ID_NONE \<and> persona_id ?req \<noteq> 0
                then persona_id ?req else PERSONA_ID_NONE)
               (login_of ?req) (persona_type ?req) (example_registry [])
             = (Some 1000, 0, ?r1)"
    by (simp add: f lg persona_alloc_example_none)
  have su: "is_superuser ?env" by (simp add: example_env_def)
  have cin: "kpersona_copyin ?env 0x1000 = Inr ?req"
    by (rule kpersona_copyin_example) (simp add: MAXLOGNAME_def)
  show ?thesis
    using alloc_syscall_created[OF su cin pa refl refl refl, of "0x1000"]
    by (simp add: f)
      (simp add: example_env_def example_request_def kpersona_copyout_def overlay32_def
        PERSONA_INFO_V1_def)
qed

subsection \<open>The id of a new persona\<close>




lemma example_request_sel [simp]:
  "persona_info_version (example_request q s) = 1" "persona_id (example_request q s) = q"
  "persona_type (example_request q s) = 2" "persona_gid (example_request q s) = 0"
  "persona_ngroups (example_request q s) = 0" "persona_gmuid (example_request q s) = 0"
  "persona_groups (example_request q s) = replicate 16 0"
  "persona_name (example_request q s) = name_field s"
  by (simp_all add: example_request_def)

lemma kpersona_copyin_fixture:
  assumes "persona_info_version req = PERSONA_INFO_V1" "persona_name req = name_field s"
    "length s \<le> MAXLOGNAME" "uin32 env a = (0, persona_info_version req)"
    "uin_info env a = (0, req)"
  shows "kpersona_copyin env a = Inr req"
  using assms name_field_terminated[of s] by (simp add: kpersona_copyin_def)

lemma login_of_fixture:
  assumes "persona_name req = name_field s" "CHR 0x00 \<notin> set s" "s \<noteq> []"
    "length s \<le> MAXLOGNAME"
  shows "login_of req = Some s"
proof -
  have "name_field s ! 0 = s ! 0" using assms(3) by (simp add: name_field_def nth_append)
  moreover have "s ! 0 \<noteq> CHR 0x00" using assms(2,3) by (cases s) auto
  ultimately show ?thesis using assms by (simp add: login_of_def c_string_name_field)
qed

subsection \<open>The resolution identity of the groups\<close>



subsection \<open>Failure after the persona exists\<close>

text \<open>
  C2. The handler at a privileged request for a persona named svc on an empty registry,
  all copy-ins succeeding. When the record at 0x1000 cannot be written, the copy-out of
  the id succeeds and the final kpersona_copyout fails: the handler returns EFAULT and
  the new persona stays in the table holding its one reference, persona_put is not
  called (line 129 does not go to out_error). When instead the id at 0x2000 cannot be
  written, the handler returns EFAULT through out_error and the reference is released.
\<close>

theorem kpersona_alloc_syscall_leaks_on_final_copyout:
  "kpersona_alloc_syscall
      ((example_env True 0 0 (example_request PERSONA_ID_NONE ''svc''))
         \<lparr>uout := \<lambda>a. if a = 0x1000 then EFAULT else 0\<rparr>)
      0x1000 0x2000 (example_registry [])
     = (EFAULT,
        (example_registry [new_persona 1000 (Some ''svc'') 2])\<lparr>g_next_persona_id := 1001\<rparr>,
        [(0x2000, U32 1000)]) \<and>
   EFAULT \<noteq> 0 \<and>
   pna_refcount (new_persona 1000 (Some ''svc'') 2) = 1 \<and>
   kpersona_alloc_syscall
      ((example_env True 0 0 (example_request PERSONA_ID_NONE ''svc''))
         \<lparr>uout := \<lambda>a. if a = 0x2000 then EFAULT else 0\<rparr>)
      0x1000 0x2000 (example_registry [])
     = (EFAULT,
        persona_put (Some 1000)
          ((example_registry [new_persona 1000 (Some ''svc'') 2])\<lparr>g_next_persona_id := 1001\<rparr>),
        [])"
proof -
  let ?req = "example_request PERSONA_ID_NONE ''svc''"
  let ?r1 = "(example_registry [new_persona 1000 (Some ''svc'') 2])\<lparr>g_next_persona_id := 1001\<rparr>"
  have f: "persona_id ?req = PERSONA_ID_NONE" "persona_type ?req = 2" "persona_gid ?req = 0"
    "persona_ngroups ?req = 0"
    by (simp_all add: example_request_def)
  have lg: "login_of ?req = Some ''svc''"
    by (rule login_of_fixture) (simp_all add: example_request_def MAXLOGNAME_def)
  have pa: "persona_alloc
               (if persona_id ?req \<noteq> PERSONA_ID_NONE \<and> persona_id ?req \<noteq> 0
                then persona_id ?req else PERSONA_ID_NONE)
               (login_of ?req) (persona_type ?req) (example_registry [])
             = (Some 1000, 0, ?r1)"
    by (simp add: f lg persona_alloc_example_none)
  have ev: "kpersona_alloc_syscall ((example_env True 0 0 ?req)\<lparr>uout := u\<rparr>) 0x1000 0x2000
              (example_registry [])
     = (if u 0x2000 \<noteq> 0 then (u 0x2000, persona_put (Some 1000) ?r1, [])
        else if u 0x1000 \<noteq> 0 then (u 0x1000, ?r1, [(0x2000, U32 1000)])
        else (0, ?r1, [(0x2000, U32 1000), (0x1000, UInfo ?req)]))" for u
  proof -
    let ?env = "(example_env True 0 0 ?req)\<lparr>uout := u\<rparr>"
    have su: "is_superuser ?env" by (simp add: example_env_def)
    have cin: "kpersona_copyin ?env 0x1000 = Inr ?req"
      by (rule kpersona_copyin_fixture[where s = "''svc''"])
        (simp_all add: example_request_def example_env_def PERSONA_INFO_V1_def MAXLOGNAME_def)
    show ?thesis
      using alloc_syscall_created[OF su cin pa refl refl refl, of "0x2000"]
      by (simp add: f)
        (simp add: example_env_def example_request_def kpersona_copyout_def copyout_def
          overlay32_def PERSONA_INFO_V1_def)
  qed
  show ?thesis by (simp add: ev new_persona_def)
qed

lemma replicate_update_last: "(replicate (Suc n) x)[n := y] = replicate n x @ [y]"
  by (induction n) simp_all

lemma c_string_all: "CHR 0x00 \<notin> set buf \<Longrightarrow> c_string buf = buf"
  by (auto simp add: c_string_def takeWhile_eq_all_conv)

lemma long_name_field: "name_field (replicate 256 c) = replicate 256 c"
  by (simp add: name_field_def MAXLOGNAME_def)

lemma long_name_terminated:
  "(replicate 256 c)[MAXLOGNAME := CHR 0x00] = replicate 255 c @ [CHR 0x00]"
proof -
  have "(replicate (Suc 255) c)[255 := CHR 0x00] = replicate 255 c @ [CHR 0x00]"
    by (rule replicate_update_last)
  then show ?thesis by (simp add: MAXLOGNAME_def)
qed

subsection \<open>The login name\<close>

text \<open>
  C9, as amended. When the version tag is the supported one and the record, whose name
  field has MAXLOGNAME + 1 bytes, is copied in, kpersona_copyin does not fail: it returns
  the record with the last byte of the name set to NUL, so the C string of the name is
  the first MAXLOGNAME bytes of the C string supplied. A name that fills the whole field
  without a NUL, longer than MAXLOGNAME, is accepted and the login is its first
  MAXLOGNAME bytes.
\<close>

theorem kpersona_copyin_truncates_login:
  assumes "uin32 env infop = (0, PERSONA_INFO_V1)"
    and "uin_info env infop = (0, kinfo)"
    and "length (persona_name kinfo) = MAXLOGNAME + 1"
  shows
    "kpersona_copyin env infop =
       Inr (kinfo\<lparr>persona_name := (persona_name kinfo)[MAXLOGNAME := CHR 0x00]\<rparr>) \<and>
     c_string ((persona_name kinfo)[MAXLOGNAME := CHR 0x00]) =
       take MAXLOGNAME (c_string (persona_name kinfo)) \<and>
     (CHR 0x00 \<notin> set (persona_name kinfo) \<longrightarrow>
        length (c_string (persona_name kinfo)) = MAXLOGNAME + 1 \<and>
        login_of (kinfo\<lparr>persona_name := (persona_name kinfo)[MAXLOGNAME := CHR 0x00]\<rparr>) =
          Some (take MAXLOGNAME (persona_name kinfo)))"
proof (intro conjI impI)
  show "kpersona_copyin env infop =
       Inr (kinfo\<lparr>persona_name := (persona_name kinfo)[MAXLOGNAME := CHR 0x00]\<rparr>)"
    using assms by (simp add: kpersona_copyin_def)
  show t: "c_string ((persona_name kinfo)[MAXLOGNAME := CHR 0x00]) =
       take MAXLOGNAME (c_string (persona_name kinfo))"
    using assms(3) by (simp add: c_string_terminate)
  assume nn: "CHR 0x00 \<notin> set (persona_name kinfo)"
  then show "length (c_string (persona_name kinfo)) = MAXLOGNAME + 1"
    using assms(3) by (simp add: c_string_all)
  have "persona_name kinfo ! 0 \<in> set (persona_name kinfo)"
    using assms(3) by (intro nth_mem) simp
  then have "persona_name kinfo ! 0 \<noteq> CHR 0x00" using nn by metis
  then have "(persona_name kinfo)[MAXLOGNAME := CHR 0x00] ! 0 \<noteq> CHR 0x00"
    by (simp add: MAXLOGNAME_def)
  then show "login_of (kinfo\<lparr>persona_name := (persona_name kinfo)[MAXLOGNAME := CHR 0x00]\<rparr>) =
          Some (take MAXLOGNAME (persona_name kinfo))"
    using t nn by (simp add: login_of_def c_string_all)
qed

theorem kpersona_copyin_truncates_login_witness:
  "uin32 (example_env True 0 0 (example_request PERSONA_ID_NONE (replicate 256 CHR ''a''))) 0x1000
     = (0, PERSONA_INFO_V1) \<and>
   length (persona_name (example_request PERSONA_ID_NONE (replicate 256 CHR ''a''))) = MAXLOGNAME + 1 \<and>
   CHR 0x00 \<notin> set (persona_name (example_request PERSONA_ID_NONE (replicate 256 CHR ''a''))) \<and>
   kpersona_copyin (example_env True 0 0 (example_request PERSONA_ID_NONE (replicate 256 CHR ''a'')))
       0x1000
     = Inr ((example_request PERSONA_ID_NONE (replicate 256 CHR ''a''))
              \<lparr>persona_name := replicate 255 CHR ''a'' @ [CHR 0x00]\<rparr>) \<and>
   login_of ((example_request PERSONA_ID_NONE (replicate 256 CHR ''a''))
              \<lparr>persona_name := replicate 255 CHR ''a'' @ [CHR 0x00]\<rparr>)
     = Some (replicate 255 CHR ''a'')"
proof -
  let ?req = "example_request PERSONA_ID_NONE (replicate 256 CHR ''a'')"
  let ?env = "example_env True 0 0 ?req"
  have v: "uin32 ?env 0x1000 = (0, PERSONA_INFO_V1)"
    by (simp add: example_env_def PERSONA_INFO_V1_def)
  have i: "uin_info ?env 0x1000 = (0, ?req)" by (simp add: example_env_def)
  have l: "length (persona_name ?req) = MAXLOGNAME + 1"
    by (simp add: long_name_field MAXLOGNAME_def)
  have n: "CHR 0x00 \<notin> set (persona_name ?req)" by (simp add: long_name_field)
  show ?thesis
    using kpersona_copyin_truncates_login[OF v i l] v l n
    by (simp add: long_name_field long_name_terminated)
qed

theorem overlong_login_truncated_counterexample:
  "length (c_string (persona_name (example_request PERSONA_ID_NONE (replicate 256 CHR ''a'')))) = 256 \<and>
   MAXLOGNAME = 255 \<and>
   kpersona_alloc_syscall
       (example_env True 0 0 (example_request PERSONA_ID_NONE (replicate 256 CHR ''a'')))
       0x1000 0x2000 (example_registry [])
     = (0,
        (example_registry [new_persona 1000 (Some (replicate 255 CHR ''a'')) 2])
          \<lparr>g_next_persona_id := 1001\<rparr>,
        [(0x2000, U32 1000),
         (0x1000, UInfo ((example_request PERSONA_ID_NONE (replicate 256 CHR ''a''))
                           \<lparr>persona_name := replicate 255 CHR ''a'' @ [CHR 0x00]\<rparr>))]) \<and>
   pna_login (new_persona 1000 (Some (replicate 255 CHR ''a'')) 2) = replicate 255 CHR ''a''"
proof -
  let ?req = "example_request PERSONA_ID_NONE (replicate 256 CHR ''a'')"
  let ?req' = "?req\<lparr>persona_name := replicate 255 CHR ''a'' @ [CHR 0x00]\<rparr>"
  let ?env = "example_env True 0 0 ?req"
  have su: "is_superuser ?env" by (simp add: example_env_def)
  have cin: "kpersona_copyin ?env 0x1000 = Inr ?req'"
    by (simp add: kpersona_copyin_def example_env_def PERSONA_INFO_V1_def long_name_field
        long_name_terminated)
  have lg: "login_of ?req' = Some (replicate 255 CHR ''a'')"
    by (simp add: login_of_def c_string_def nth_append takeWhile_append takeWhile_replicate)
  have pa: "persona_alloc
               (if persona_id ?req' \<noteq> PERSONA_ID_NONE \<and> persona_id ?req' \<noteq> 0
                then persona_id ?req' else PERSONA_ID_NONE)
               (login_of ?req') (persona_type ?req') (example_registry [])
             = (Some 1000, 0,
                (example_registry [new_persona 1000 (Some (replicate 255 CHR ''a'')) 2])
                  \<lparr>g_next_persona_id := 1001\<rparr>)"
    unfolding lg by (simp add: persona_alloc_example_none)
  have ev: "kpersona_alloc_syscall ?env 0x1000 0x2000 (example_registry [])
     = (0,
        (example_registry [new_persona 1000 (Some (replicate 255 CHR ''a'')) 2])
          \<lparr>g_next_persona_id := 1001\<rparr>,
        [(0x2000, U32 1000), (0x1000, UInfo ?req')])"
    using alloc_syscall_created[OF su cin pa refl refl refl, of "0x2000"]
    by simp
      (simp add: example_env_def kpersona_copyout_def copyout_def overlay32_def
        PERSONA_INFO_V1_def)
  show ?thesis
    by (simp add: ev long_name_field c_string_all MAXLOGNAME_def new_persona_def)
qed

subsection \<open>Facts about the search\<close>

lemma copyout_ids_all_ok:
  assumes "n = min (unat k_idlen) (unat u_idlen)"
    and "\<forall>m<n. arr ! m = Some (ids ! m)"
    and "\<forall>m<n. uout env (idp + of_nat m * 4) = 0"
    and "i \<le> n"
  shows "copyout_ids env idp (Some arr) k_idlen u_idlen i w =
           Some (0, w @ id_writes idp ids i n)"
  using assms(4)
proof (induction "n - i" arbitrary: i w)
  case 0
  then have "i = n" by simp
  then show ?case using assms(1)
    by (subst copyout_ids.simps) (auto simp: id_writes_def min_def split: if_splits)
next
  case (Suc d)
  then have lt: "i < n" and d: "d = n - Suc i" and le: "Suc i \<le> n" by auto
  have 1: "i < unat k_idlen" "\<not> unat u_idlen \<le> i" using lt assms(1) by auto
  have 2: "arr ! i = Some (ids ! i)" "uout env (idp + of_nat i * 4) = 0"
    using lt assms(2,3) by auto
  have 3: "[i..<n] = i # [Suc i..<n]" using lt by (simp add: upt_conv_Cons)
  show ?case
    using Suc.hyps(1)[OF d le, of "w @ [(idp + of_nat i * 4, U32 (ids ! i))]"] 1 2
    by (subst copyout_ids.simps) (simp add: copyout_def id_writes_def 3)
qed

lemma copyout_ids_fail:
  assumes "n = min (unat k_idlen) (unat u_idlen)"
    and "\<forall>m<n. arr ! m = Some (ids ! m)"
    and "j < n" and "uout env (idp + of_nat j * 4) = e" and "e \<noteq> 0"
    and "\<forall>m<j. uout env (idp + of_nat m * 4) = 0"
    and "i \<le> j"
  shows "copyout_ids env idp (Some arr) k_idlen u_idlen i w =
           Some (e, w @ id_writes idp ids i j)"
  using assms(7)
proof (induction "j - i" arbitrary: i w)
  case 0
  then have ij: "i = j" by simp
  have 1: "i < unat k_idlen" "\<not> unat u_idlen \<le> i" using ij assms(1,3) by auto
  have 2: "arr ! i = Some (ids ! i)" using ij assms(2,3) by auto
  show ?case using 1 2 assms(4,5) ij
    by (subst copyout_ids.simps) (simp add: copyout_def id_writes_def)
next
  case (Suc d)
  then have lt: "i < j" and d: "d = j - Suc i" and le: "Suc i \<le> j" by auto
  have 1: "i < unat k_idlen" "\<not> unat u_idlen \<le> i" using lt assms(1,3) by auto
  have 2: "arr ! i = Some (ids ! i)" "uout env (idp + of_nat i * 4) = 0"
    using lt assms(2,3,6) by auto
  have 3: "[i..<j] = i # [Suc i..<j]" using lt by (simp add: upt_conv_Cons)
  show ?case
    using Suc.hyps(1)[OF d le, of "w @ [(idp + of_nat i * 4, U32 (ids ! i))]"] 1 2
    by (subst copyout_ids.simps) (simp add: copyout_def id_writes_def 3)
qed

lemma copyout_ids_bound:
  "copyout_ids env idp persona k_idlen u_idlen i w = Some (e, w') \<Longrightarrow>
     \<exists>ws. w' = w @ ws \<and> length ws \<le> unat u_idlen - i \<and> (\<forall>x \<in> set ws. is_id_write x)"
proof (induction env idp persona k_idlen u_idlen i w rule: copyout_ids.induct)
  case (1 env idp persona k_idlen u_idlen i w)
  show ?case
  proof (cases "i < unat k_idlen \<and> \<not> unat u_idlen \<le> i")
    case False
    with "1.prems" have "w' = w" by (subst (asm) copyout_ids.simps) (auto split: if_splits)
    then show ?thesis by simp
  next
    case True
    from "1.prems" True obtain arr h where arr: "persona = Some arr" "arr ! i = Some h"
      by (subst (asm) copyout_ids.simps) (auto split: option.splits)
    show ?thesis
    proof (cases "uout env (idp + of_nat i * 4) = 0")
      case ok: True
      let ?w1 = "w @ [(idp + of_nat i * 4, U32 h)]"
      have co: "copyout env (U32 h) (idp + of_nat i * 4) w = (0, ?w1)"
        using ok by (simp add: copyout_def)
      have rec: "copyout_ids env idp persona k_idlen u_idlen (Suc i) ?w1 = Some (e, w')"
        using "1.prems" True arr co by (subst (asm) copyout_ids.simps) simp
      from "1.IH"[OF _ _ arr(1) arr(2) co[symmetric] _ rec] True
      obtain ws where "w' = ?w1 @ ws" "length ws \<le> unat u_idlen - Suc i" "\<forall>x \<in> set ws. is_id_write x"
        by auto
      then show ?thesis using True
        by (intro exI[of _ "(idp + of_nat i * 4, U32 h) # ws"]) auto
    next
      case bad: False
      have "w' = w" using "1.prems" True arr bad
        by (subst (asm) copyout_ids.simps) (simp add: copyout_def)
      then show ?thesis by simp
    qed
  qed
qed

lemma put_after_get_step:
  assumes "h \<notin> set hs" and "\<forall>p \<in> set T. pna_id p = h \<longrightarrow> pna_valid p"
  shows "concat (map (\<lambda>p. if pna_id p = h then release_entry p else [p])
           (map (\<lambda>p. if pna_id p \<in> set (h # hs) then persona_get p else p) T))
         = map (\<lambda>p. if pna_id p \<in> set hs then persona_get p else p) T"
proof -
  have "(if pna_id (if pna_id p \<in> set (h # hs) then persona_get p else p) = h
         then release_entry (if pna_id p \<in> set (h # hs) then persona_get p else p)
         else [if pna_id p \<in> set (h # hs) then persona_get p else p])
        = [if pna_id p \<in> set hs then persona_get p else p]" if "p \<in> set T" for p
    using that assms by (auto simp: release_get_valid pna_id_persona_get)
  then have "map (\<lambda>p. if pna_id p = h then release_entry p else [p])
           (map (\<lambda>p. if pna_id p \<in> set (h # hs) then persona_get p else p) T)
        = map (\<lambda>p. [if pna_id p \<in> set hs then persona_get p else p]) T"
    by (simp add: comp_def del: set_simps list.set)
  then show ?thesis by (simp del: map_map set_simps list.set add: concat_map_singleton)
qed

lemma puts_undo_gets:
  assumes "distinct hs" and "\<forall>p \<in> set T. pna_id p \<in> set hs \<longrightarrow> pna_valid p"
  shows "foldl (\<lambda>r' x. persona_put x r')
           (r\<lparr>all_personas := map (\<lambda>p. if pna_id p \<in> set hs then persona_get p else p) T\<rparr>)
           (map Some hs) = r\<lparr>all_personas := T\<rparr>"
  using assms
proof (induction hs)
  case Nil
  then show ?case by simp
next
  case (Cons h hs)
  have "persona_put (Some h)
          (r\<lparr>all_personas := map (\<lambda>p. if pna_id p \<in> set (h # hs) then persona_get p else p) T\<rparr>)
        = r\<lparr>all_personas := map (\<lambda>p. if pna_id p \<in> set hs then persona_get p else p) T\<rparr>"
  proof -
    have "h \<notin> set hs" "\<forall>p \<in> set T. pna_id p = h \<longrightarrow> pna_valid p"
      using Cons.prems by auto
    from put_after_get_step[OF this] show ?thesis
      by (simp add: persona_put_def del: map_map set_simps list.set)
  qed
  then show ?case using Cons by simp
qed

lemma puts_of_null: "foldl (\<lambda>r' x. persona_put x r') r (replicate n None) = r"
  by (induction n) (simp_all add: persona_put_def)

lemma foldl_nth_upt:
  "foldl (\<lambda>r' i. f (arr ! i) r') r [0..<length arr] = foldl (\<lambda>r' x. f x r') r arr"
proof -
  have "foldl (\<lambda>r' x. f x r') r (map ((!) arr) [0..<length arr]) = foldl (\<lambda>r' x. f x r') r arr"
    by (simp only: map_nth)
  then show ?thesis by (simp add: foldl_map)
qed

lemma found_ids_distinct:
  "distinct (persona_ids r) \<Longrightarrow> distinct (map pna_id (found_personas login uid r))"
  by (simp add: persona_ids_def found_personas_def distinct_map_filter)

lemma found_ids_valid:
  assumes "distinct (persona_ids r)" "p \<in> set (all_personas r)"
    "pna_id p \<in> pna_id ` set (found_personas login uid r)"
  shows "pna_valid p"
proof -
  from assms(3) obtain q where q: "q \<in> set (found_personas login uid r)" "pna_id q = pna_id p"
    by auto
  then have "q \<in> set (all_personas r)" "pna_valid q" by (auto simp: found_personas_def)
  moreover have "q = p" using assms(1,2) q \<open>q \<in> set (all_personas r)\<close>
    by (auto simp: persona_ids_def distinct_map dest: inj_onD)
  ultimately show ?thesis by simp
qed

lemma find_out_writes: "snd (copyout env (U64 k) idlenp w) = w @ count_write env idlenp k"
  by (simp add: copyout_def count_write_def)

lemma found_length_unat:
  assumes "length (all_personas r) \<le> unat (g_max_personas r)"
  shows "unat (of_nat (length (found_personas login uid r)) :: 64 word)
           = length (found_personas login uid r)"
proof -
  have "length (found_personas login uid r) \<le> length (all_personas r)"
    by (simp add: found_personas_def)
  moreover have "unat (g_max_personas r) < 2 ^ 32" using unsigned_less[of "g_max_personas r"] by simp
  ultimately have "length (found_personas login uid r) < 2 ^ 64" using assms by simp
  then show ?thesis by (intro of_nat_inverse) simp_all
qed

lemma find_with_limit_search:
  assumes cin: "kpersona_copyin env infop = Inr kinfo"
    and mal: "\<not> malloc_fails env"
    and found: "found = found_personas (login_of kinfo) (persona_id kinfo) r"
    and got: "got = take (unat u) (map pna_id found)"
    and r1: "r1 = r\<lparr>all_personas :=
                      map (\<lambda>p. if pna_id p \<in> set got then persona_get p else p) (all_personas r)\<rparr>"
    and arr: "arr = map Some got @ replicate (unat u - length got) None"
  shows "persona_find (login_of kinfo) (persona_id kinfo)
           (if u > 0 then Some (replicate (unat u) None) else None) u r
         = (if found = [] then ESRCH else 0, if u > 0 then Some arr else None,
            of_nat (length found), r1)"
    and "find_with_limit env infop idp idlenp u r =
     (if found = [] then Some (ESRCH, foldl (\<lambda>r' x. persona_put x r') r1 arr,
                               count_write env idlenp 0)
      else case copyout_ids env idp (if u > 0 then Some arr else None)
                  (of_nat (length found)) u 0 [] of
             None \<Rightarrow> None
           | Some (error, w) \<Rightarrow>
               Some (error, foldl (\<lambda>r' x. persona_put x r') r1 arr,
                     w @ count_write env idlenp (of_nat (length found))))"
proof -
  have lg: "length got \<le> unat u" using got by simp
  have u0: "got = [] \<and> arr = [] \<and> r1 = r" if "\<not> u > 0"
  proof -
    from that have "u = 0" using word_neq_0_conv[of u] by blast
    then show ?thesis using got arr r1 by simp
  qed
  show pf: "persona_find (login_of kinfo) (persona_id kinfo)
           (if u > 0 then Some (replicate (unat u) None) else None) u r
         = (if found = [] then ESRCH else 0, if u > 0 then Some arr else None,
            of_nat (length found), r1)"
    using found got r1 arr u0 by (auto simp add: persona_find_def Let_def)
  have len: "length arr = unat u" using lg arr by simp
  have fo: "find_out env idlenp (if u > 0 then Some arr else None) u k error r1 w
              = (error, foldl (\<lambda>r' x. persona_put x r') r1 arr, w @ count_write env idlenp k)"
    for k error w
  proof (cases "u > 0")
    case True
    have "foldl (\<lambda>r' i. persona_put (arr ! i) r') r1 [0..<unat u]
            = foldl (\<lambda>r' x. persona_put x r') r1 arr"
      using foldl_nth_upt[of persona_put arr r1] len by simp
    then show ?thesis using True by (simp add: find_out_def find_out_writes)
  next
    case False
    then show ?thesis using u0 by (simp add: find_out_def find_out_writes)
  qed
  have e0: "(of_nat (length found) :: 64 word) = 0" if "found = []" using that by simp
  show "find_with_limit env infop idp idlenp u r =
     (if found = [] then Some (ESRCH, foldl (\<lambda>r' x. persona_put x r') r1 arr,
                               count_write env idlenp 0)
      else case copyout_ids env idp (if u > 0 then Some arr else None)
                  (of_nat (length found)) u 0 [] of
             None \<Rightarrow> None
           | Some (error, w) \<Rightarrow>
               Some (error, foldl (\<lambda>r' x. persona_put x r') r1 arr,
                     w @ count_write env idlenp (of_nat (length found))))"
    unfolding find_with_limit_def Let_def
    using cin mal pf fo e0
    by (cases "u > 0") (auto split: option.splits prod.splits)
qed

lemma find_cleanup_restores:
  assumes dist: "distinct (persona_ids r)"
    and found: "found = found_personas login uid r"
    and got: "got = take n (map pna_id found)"
  shows "foldl (\<lambda>r' x. persona_put x r')
           (r\<lparr>all_personas :=
                 map (\<lambda>p. if pna_id p \<in> set got then persona_get p else p) (all_personas r)\<rparr>)
           (map Some got @ replicate m None) = r"
proof -
  have d: "distinct got" using dist got found found_ids_distinct[of r login uid]
    by (simp add: distinct_take)
  have v: "\<forall>p \<in> set (all_personas r). pna_id p \<in> set got \<longrightarrow> pna_valid p"
  proof (intro ballI impI)
    fix p assume p: "p \<in> set (all_personas r)" "pna_id p \<in> set got"
    then have "pna_id p \<in> pna_id ` set (found_personas login uid r)"
      using got found by (auto dest: in_set_takeD)
    then show "pna_valid p" using found_ids_valid[OF dist p(1)] by blast
  qed
  show ?thesis by (simp add: puts_undo_gets[OF d v] puts_of_null)
qed

lemma clamp_min:
  "(if (L :: 64 word) > g then g else L) = min L g"
  by (auto simp add: min_def)

lemma kpersona_find_syscall_limit:
  "uin64 env idlenp = (0, L) \<Longrightarrow>
     kpersona_find_syscall env infop idp idlenp r =
       find_with_limit env infop idp idlenp (min L (ucast (g_max_personas r))) r"
  by (simp add: kpersona_find_syscall_def clamp_min)

lemma search_array_slots:
  assumes "got = take (unat u) ids" "arr = map Some got @ replicate (unat u - length got) None"
    "n = min (unat (of_nat (length ids) :: 64 word)) (unat u)"
  shows "n \<le> length got" "\<forall>m<n. arr ! m = Some (got ! m)"
proof -
  have "unat (of_nat (length ids) :: 64 word) \<le> length ids"
    by (simp add: unat_of_nat)
  then show n: "n \<le> length got" using assms(1,3) by simp
  show "\<forall>m<n. arr ! m = Some (got ! m)" using n assms(2) by (simp add: nth_append)
qed

lemma refs_after_get:
  "sum_list (map pna_refcount (map (\<lambda>p. if pna_id p \<in> S then persona_get p else p) xs))
     = sum_list (map pna_refcount xs) + length (filter (\<lambda>p. pna_id p \<in> S) xs)"
  by (induction xs) (simp_all add: persona_get_def)

lemma entries_of_got:
  assumes "distinct (map pna_id xs)" "distinct got" "set got \<subseteq> pna_id ` set xs"
  shows "length (filter (\<lambda>p. pna_id p \<in> set got) xs) = length got"
proof -
  have "length (filter (\<lambda>p. pna_id p \<in> set got) xs)
          = length (filter (\<lambda>i. i \<in> set got) (map pna_id xs))"
    by (simp add: filter_map comp_def)
  also have "\<dots> = card ({i. i \<in> set got} \<inter> set (map pna_id xs))"
    using assms(1) by (rule distinct_length_filter)
  also have "{i. i \<in> set got} \<inter> set (map pna_id xs) = set got" using assms(3) by auto
  also have "card (set got) = length got" using assms(2) by (rule distinct_card)
  finally show ?thesis .
qed

lemma search_refs_held:
  assumes dist: "distinct (persona_ids r)"
    and found: "found = found_personas login uid r"
    and got: "got = take n (map pna_id found)"
  shows "refs_held (r\<lparr>all_personas :=
                      map (\<lambda>p. if pna_id p \<in> set got then persona_get p else p) (all_personas r)\<rparr>)
           = refs_held r + length got"
proof -
  have d: "distinct got" using dist got found found_ids_distinct[of r login uid]
    by (simp add: distinct_take)
  have "set got \<subseteq> pna_id ` set found" using got by (auto dest: in_set_takeD)
  then have sub: "set got \<subseteq> pna_id ` set (all_personas r)"
    using found by (auto simp: found_personas_def)
  show ?thesis
    using entries_of_got[OF dist[unfolded persona_ids_def] d sub]
    by (simp add: refs_held_def refs_after_get del: map_map)
qed

subsection \<open>A copy-out that fails during the search\<close>

text \<open>
  C3. A call of kpersona_find_syscall in which the limit and the record are copied in and
  the array is allocated, on a table with unique ids of at most g_max_personas entries:
  let got be the ids of the first matches up to the clamped limit, and let the copy-out
  of the id with index j fail with error e after the copy-outs with smaller indices have
  succeeded. Then the search has acquired one reference on each persona of got and stored
  them in the array; the handler copies out only the ids before index j and skips the
  rest; it releases every slot of the array once, which leaves the registry exactly as
  it was before the call; it reports the count and returns e.
\<close>

theorem kpersona_find_syscall_copyout_failure:
  assumes idlen: "uin64 env idlenp = (0, L)"
    and cin: "kpersona_copyin env infop = Inr kinfo"
    and mal: "\<not> malloc_fails env"
    and dist: "distinct (persona_ids r)"
    and size: "length (all_personas r) \<le> unat (g_max_personas r)"
    and u: "u = min L (ucast (g_max_personas r))"
    and found: "found = found_personas (login_of kinfo) (persona_id kinfo) r"
    and got: "got = take (unat u) (map pna_id found)"
    and j: "j < length got"
    and fail: "uout env (idp + of_nat j * 4) = e" "e \<noteq> 0"
    and before: "\<forall>m<j. uout env (idp + of_nat m * 4) = 0"
    and r1: "r1 = r\<lparr>all_personas :=
                      map (\<lambda>p. if pna_id p \<in> set got then persona_get p else p) (all_personas r)\<rparr>"
    and arr: "arr = map Some got @ replicate (unat u - length got) None"
  shows
    "persona_find (login_of kinfo) (persona_id kinfo) (Some (replicate (unat u) None)) u r
       = (0, Some arr, of_nat (length found), r1) \<and>
     refs_held r1 = refs_held r + length got \<and>
     foldl (\<lambda>r' x. persona_put x r') r1 arr = r \<and>
     kpersona_find_syscall env infop idp idlenp r =
       Some (e, r, id_writes idp got 0 j @ count_write env idlenp (of_nat (length found)))"
proof -
  have ne: "found \<noteq> []" using j got by auto
  have up: "u > 0"
  proof (rule ccontr)
    assume "\<not> u > 0"
    then have "u = 0" using word_neq_0_conv[of u] by blast
    then show False using j got by simp
  qed
  note s = find_with_limit_search[OF cin mal found got r1 arr]
  have pf: "persona_find (login_of kinfo) (persona_id kinfo) (Some (replicate (unat u) None)) u r
       = (0, Some arr, of_nat (length found), r1)"
    using s(1) ne up by simp
  have rest: "foldl (\<lambda>r' x. persona_put x r') r1 arr = r"
    unfolding r1 arr using find_cleanup_restores[OF dist found got] by simp
  have k: "unat (of_nat (length found) :: 64 word) = length found"
    unfolding found by (rule found_length_unat[OF size])
  define n where "n = min (unat (of_nat (length (map pna_id found)) :: 64 word)) (unat u)"
  have n: "n = min (unat (of_nat (length found) :: 64 word)) (unat u)" by (simp add: n_def)
  have ng: "n = length got" using k got n by (simp add: min.commute)
  have slots: "\<forall>m<n. arr ! m = Some (got ! m)"
    using search_array_slots(2)[OF got arr n_def] .
  have loop: "copyout_ids env idp (Some arr) (of_nat (length found)) u 0 []
                = Some (e, [] @ id_writes idp got 0 j)"
    by (rule copyout_ids_fail[OF n slots _ fail before]) (use j ng in simp_all)
  have sys: "kpersona_find_syscall env infop idp idlenp r =
       Some (e, r, id_writes idp got 0 j @ count_write env idlenp (of_nat (length found)))"
    using kpersona_find_syscall_limit[OF idlen] s(2)[of idp idlenp] ne up loop rest u by simp
  have held: "refs_held r1 = refs_held r + length got"
    unfolding r1 by (rule search_refs_held[OF dist found got])
  show ?thesis using pf held rest sys by simp
qed

lemma example_table_found:
  "found_personas (Some ''alice'') PERSONA_ID_NONE (example_registry example_table)
     = [example_persona 501 ''alice'' 1, example_persona 502 ''alice'' 1]"
  by (simp add: found_personas_def example_registry_def example_table_def example_persona_def
      persona_matches_def)

lemma example_table_inv:
  "distinct (persona_ids (example_registry example_table))"
  "length (all_personas (example_registry example_table))
     \<le> unat (g_max_personas (example_registry example_table))"
  by (simp_all add: persona_ids_def example_registry_def example_table_def example_persona_def)

theorem kpersona_find_syscall_copyout_failure_witness:
  "kpersona_find_syscall
      ((example_env True 0 10 (example_request PERSONA_ID_NONE ''alice''))
         \<lparr>uout := \<lambda>a. if a = 0x2004 then EFAULT else 0\<rparr>)
      0x1000 0x2000 0x3000 (example_registry example_table)
     = Some (EFAULT, example_registry example_table, [(0x2000, U32 501), (0x3000, U64 2)]) \<and>
   refs_held
     ((example_registry example_table)
        \<lparr>all_personas :=
           map (\<lambda>p. if pna_id p \<in> set [501, 502] then persona_get p else p)
             (all_personas (example_registry example_table))\<rparr>)
     = refs_held (example_registry example_table) + 2"
proof -
  let ?req = "example_request PERSONA_ID_NONE ''alice''"
  let ?env = "(example_env True 0 10 ?req)\<lparr>uout := \<lambda>a. if a = 0x2004 then EFAULT else 0\<rparr>"
  let ?r = "example_registry example_table"
  have idlen: "uin64 ?env 0x3000 = (0, 10)" by (simp add: example_env_def)
  have cin: "kpersona_copyin ?env 0x1000 = Inr ?req"
    by (rule kpersona_copyin_fixture[where s = "''alice''"])
      (simp_all add: example_env_def PERSONA_INFO_V1_def MAXLOGNAME_def)
  have mal: "\<not> malloc_fails ?env" by (simp add: example_env_def)
  have lg: "login_of ?req = Some ''alice''"
    by (rule login_of_fixture) (simp_all add: MAXLOGNAME_def)
  have u: "min (10 :: 64 word) (ucast (g_max_personas ?r)) = 10"
    by (simp add: example_registry_def)
  have got: "take (unat (min (10 :: 64 word) (ucast (g_max_personas ?r))))
               (map pna_id (found_personas (login_of ?req) (persona_id ?req) ?r)) = [501, 502]"
    unfolding u lg by (simp add: example_table_found) (simp add: example_persona_def)
  have j: "1 < length (take (unat (min (10 :: 64 word) (ucast (g_max_personas ?r))))
               (map pna_id (found_personas (login_of ?req) (persona_id ?req) ?r)))"
    unfolding got by simp
  have fail: "uout ?env (0x2000 + of_nat 1 * 4) = EFAULT" by (simp add: example_env_def)
  have before: "\<forall>m<1. uout ?env (0x2000 + of_nat m * 4) = 0" by (simp add: example_env_def)
  have cw: "count_write ?env 0x3000 k = [(0x3000, U64 k)]" for k
    by (simp add: count_write_def example_env_def)
  have fl: "length (found_personas (login_of ?req) (persona_id ?req) ?r) = 2"
    unfolding lg by (simp add: example_table_found)
  show ?thesis
    using kpersona_find_syscall_copyout_failure[OF idlen cin mal example_table_inv refl refl refl
        j fail _ before refl refl]
    unfolding got fl by (simp add: id_writes_def cw)
qed

lemma unat_ucast_32_64: "unat (ucast (g :: 32 word) :: 64 word) = unat g"
proof -
  have "unat g < 2 ^ 32" using unsigned_less[of g, where 'a = nat] by simp
  then have "unat g < 2 ^ 64" by simp
  then show ?thesis by (simp add: unsigned_ucast_eq take_bit_nat_eq_self_iff)
qed

lemma copyout_ids_result:
  assumes got: "got = take (unat u) ids"
    and arr: "arr = map Some got @ replicate (unat u - length got) None"
  shows "\<exists>e m. copyout_ids env idp (if u > 0 then Some arr else None)
                 (of_nat (length ids)) u 0 [] = Some (e, id_writes idp got 0 m) \<and>
               m \<le> length got \<and>
               (e = 0 \<longrightarrow> m = min (unat (of_nat (length ids) :: 64 word)) (unat u))"
proof (cases "u > 0")
  case False
  then have "u = 0" using word_neq_0_conv[of u] by blast
  then have "copyout_ids env idp None (of_nat (length ids)) u 0 [] = Some (0, [])"
    by (subst copyout_ids.simps) simp
  then show ?thesis using False \<open>u = 0\<close> by (intro exI[of _ 0]) (simp add: id_writes_def)
next
  case True
  define n where "n = min (unat (of_nat (length ids) :: 64 word)) (unat u)"
  note sl = search_array_slots[OF got arr n_def]
  show ?thesis
  proof (cases "\<forall>m<n. uout env (idp + of_nat m * 4) = 0")
    case ok: True
    have "copyout_ids env idp (Some arr) (of_nat (length ids)) u 0 []
            = Some (0, [] @ id_writes idp got 0 n)"
      by (rule copyout_ids_all_ok[OF n_def sl(2) ok]) simp
    then show ?thesis using True sl(1) n_def by auto
  next
    case False
    then have ex: "\<exists>m. m < n \<and> uout env (idp + of_nat m * 4) \<noteq> 0" by auto
    define j where "j = (LEAST m. m < n \<and> uout env (idp + of_nat m * 4) \<noteq> 0)"
    have jp: "j < n \<and> uout env (idp + of_nat j * 4) \<noteq> 0"
      unfolding j_def using ex by (rule LeastI_ex)
    have jb: "\<forall>m<j. uout env (idp + of_nat m * 4) = 0"
    proof (intro allI impI)
      fix m assume m: "m < j"
      then have "\<not> (m < n \<and> uout env (idp + of_nat m * 4) \<noteq> 0)"
        unfolding j_def by (rule not_less_Least)
      moreover have "m < n" using m jp by simp
      ultimately show "uout env (idp + of_nat m * 4) = 0" by simp
    qed
    have "copyout_ids env idp (Some arr) (of_nat (length ids)) u 0 []
            = Some (uout env (idp + of_nat j * 4), [] @ id_writes idp got 0 j)"
      by (rule copyout_ids_fail[OF n_def sl(2) _ refl _ jb]) (use jp in simp_all)
    then show ?thesis using True sl(1) jp by auto
  qed
qed

lemma id_writes_take:
  "m \<le> length (take n ids) \<Longrightarrow> id_writes idp (take n ids) 0 m = id_writes idp ids 0 m"
  by (simp add: id_writes_def)

subsection \<open>The count that is reported\<close>

text \<open>
  C4. A call of kpersona_find_syscall in which the limit L and the record are copied in
  and the array is allocated returns; the ids it copies out are the first m matching ids
  for some m that is at most L and at most the number of matches, and the count it copies
  out at the end (when that copy-out succeeds) is the total number of valid personas that
  match, whatever the limit. When the call succeeds on a table within its capacity, m is
  the smaller of L and the number of matches.
\<close>

theorem kpersona_find_syscall_reports_total:
  assumes idlen: "uin64 env idlenp = (0, L)"
    and cin: "kpersona_copyin env infop = Inr kinfo"
    and mal: "\<not> malloc_fails env"
    and found: "found = found_personas (login_of kinfo) (persona_id kinfo) r"
  shows
    "\<exists>e r' m. kpersona_find_syscall env infop idp idlenp r =
                 Some (e, r', id_writes idp (map pna_id found) 0 m @
                              count_write env idlenp (of_nat (length found))) \<and>
              m \<le> unat L \<and> m \<le> length found \<and>
              (e = 0 \<and> length (all_personas r) \<le> unat (g_max_personas r) \<longrightarrow>
                 m = min (unat L) (length found))"
proof -
  define u where "u = min L (ucast (g_max_personas r))"
  define got where "got = take (unat u) (map pna_id found)"
  define r1 where "r1 = r\<lparr>all_personas :=
                      map (\<lambda>p. if pna_id p \<in> set got then persona_get p else p) (all_personas r)\<rparr>"
  define arr where "arr = map Some got @ replicate (unat u - length got) None"
  note s = find_with_limit_search(2)[OF cin mal found got_def r1_def arr_def, of idp idlenp]
  have sys: "kpersona_find_syscall env infop idp idlenp r = find_with_limit env infop idp idlenp u r"
    unfolding u_def by (rule kpersona_find_syscall_limit[OF idlen])
  have ul: "unat u \<le> unat L" unfolding u_def by (simp add: word_le_nat_alt[symmetric])
  have gl: "length got \<le> unat L" "length got \<le> length found" using ul by (simp_all add: got_def)
  show ?thesis
  proof (cases "found = []")
    case True
    then have "kpersona_find_syscall env infop idp idlenp r =
                 Some (ESRCH, foldl (\<lambda>r' x. persona_put x r') r1 arr,
                       id_writes idp (map pna_id found) 0 0 @
                       count_write env idlenp (of_nat (length found)))"
      using sys s by (simp add: id_writes_def)
    then show ?thesis by (intro exI[of _ ESRCH] exI[of _ 0] exI) auto
  next
    case False
    from copyout_ids_result[OF got_def arr_def, of env idp]
    obtain e m where loop: "copyout_ids env idp (if u > 0 then Some arr else None)
                 (of_nat (length found)) u 0 [] = Some (e, id_writes idp got 0 m)"
      and m: "m \<le> length got"
      and m0: "e = 0 \<longrightarrow> m = min (unat (of_nat (length found) :: 64 word)) (unat u)"
      by auto
    have exact: "m = min (unat L) (length found)"
      if "e = 0" and size: "length (all_personas r) \<le> unat (g_max_personas r)"
    proof -
      have k: "unat (of_nat (length found) :: 64 word) = length found"
        unfolding found by (rule found_length_unat[OF size])
      have "length found \<le> unat (g_max_personas r)"
        using size unfolding found found_personas_def
        by (meson le_trans length_filter_le)
      moreover have "unat u = min (unat L) (unat (g_max_personas r))"
        unfolding u_def by (simp add: min_def word_le_nat_alt unat_ucast_32_64)
      ultimately show ?thesis using m0 that(1) k by simp
    qed
    have "id_writes idp got 0 m = id_writes idp (map pna_id found) 0 m"
      using m unfolding got_def by (rule id_writes_take)
    then have "kpersona_find_syscall env infop idp idlenp r =
                 Some (e, foldl (\<lambda>r' x. persona_put x r') r1 arr,
                       id_writes idp (map pna_id found) 0 m @
                       count_write env idlenp (of_nat (length found)))"
      using sys s False loop by simp
    moreover have "m \<le> unat L" "m \<le> length found" using m gl by simp_all
    ultimately show ?thesis using exact by blast
  qed
qed

lemma find_eval_ok:
  assumes idlen: "uin64 env idlenp = (0, L)"
    and cin: "kpersona_copyin env infop = Inr kinfo"
    and mal: "\<not> malloc_fails env"
    and dist: "distinct (persona_ids r)"
    and u: "u = min L (ucast (g_max_personas r))"
    and found: "found = found_personas (login_of kinfo) (persona_id kinfo) r"
    and got: "got = take (unat u) (map pna_id found)"
    and ne: "found \<noteq> []"
    and n: "n = min (unat (of_nat (length found) :: 64 word)) (unat u)"
    and ok: "\<forall>m<n. uout env (idp + of_nat m * 4) = 0"
  shows "kpersona_find_syscall env infop idp idlenp r =
           Some (0, r, id_writes idp got 0 n @ count_write env idlenp (of_nat (length found)))"
proof -
  define r1 where "r1 = r\<lparr>all_personas :=
                      map (\<lambda>p. if pna_id p \<in> set got then persona_get p else p) (all_personas r)\<rparr>"
  define arr where "arr = map Some got @ replicate (unat u - length got) None"
  note s = find_with_limit_search(2)[OF cin mal found got r1_def arr_def, of idp idlenp]
  have rest: "foldl (\<lambda>r' x. persona_put x r') r1 arr = r"
    unfolding r1_def arr_def using find_cleanup_restores[OF dist found got] by simp
  have n': "n = min (unat (of_nat (length (map pna_id found)) :: 64 word)) (unat u)"
    using n by simp
  note sl = search_array_slots[OF got arr_def n']
  have loop: "copyout_ids env idp (if u > 0 then Some arr else None) (of_nat (length found)) u 0 []
                = Some (0, id_writes idp got 0 n)"
  proof (cases "u > 0")
    case True
    have "copyout_ids env idp (Some arr) (of_nat (length found)) u 0 []
            = Some (0, [] @ id_writes idp got 0 n)"
      by (rule copyout_ids_all_ok[OF n sl(2) ok]) simp
    then show ?thesis using True by simp
  next
    case False
    then have "u = 0" using word_neq_0_conv[of u] by blast
    then have "copyout_ids env idp None (of_nat (length found)) u 0 [] = Some (0, [])"
      by (subst copyout_ids.simps) simp
    moreover have "n = 0" using n \<open>u = 0\<close> by simp
    ultimately show ?thesis using False by (simp add: id_writes_def)
  qed
  show ?thesis
    using kpersona_find_syscall_limit[OF idlen] s ne loop rest u by simp
qed

theorem kpersona_find_syscall_reports_total_witness:
  "kpersona_find_syscall (example_env True 0 1 (example_request PERSONA_ID_NONE ''alice''))
      0x1000 0x2000 0x3000 (example_registry example_table)
     = Some (0, example_registry example_table, [(0x2000, U32 501), (0x3000, U64 2)]) \<and>
   length (found_personas (Some ''alice'') PERSONA_ID_NONE (example_registry example_table)) = 2"
proof -
  let ?req = "example_request PERSONA_ID_NONE ''alice''"
  let ?env = "example_env True 0 1 ?req"
  let ?r = "example_registry example_table"
  have idlen: "uin64 ?env 0x3000 = (0, 1)" by (simp add: example_env_def)
  have cin: "kpersona_copyin ?env 0x1000 = Inr ?req"
    by (rule kpersona_copyin_fixture[where s = "''alice''"])
      (simp_all add: example_env_def PERSONA_INFO_V1_def MAXLOGNAME_def)
  have mal: "\<not> malloc_fails ?env" by (simp add: example_env_def)
  have lg: "login_of ?req = Some ''alice''"
    by (rule login_of_fixture) (simp_all add: MAXLOGNAME_def)
  have f: "found_personas (login_of ?req) (persona_id ?req) ?r
             = [example_persona 501 ''alice'' 1, example_persona 502 ''alice'' 1]"
    unfolding lg by (simp add: example_table_found)
  have u: "min (1 :: 64 word) (ucast (g_max_personas ?r)) = 1"
    by (simp add: example_registry_def)
  have ev: "kpersona_find_syscall ?env 0x1000 0x2000 0x3000 ?r =
           Some (0, ?r, id_writes 0x2000 [501] 0 1 @ count_write ?env 0x3000 2)"
    using find_eval_ok[OF idlen cin mal example_table_inv(1) refl refl refl _ refl,
        where idp = "0x2000"]
    unfolding f u by (simp add: example_env_def example_persona_def)
  show ?thesis
    using kpersona_find_syscall_reports_total[OF idlen cin mal refl, where idp = "0x2000"] ev
    by (simp add: id_writes_def count_write_def example_env_def example_table_found)
qed

lemma copyout_uin64: "copyout (env\<lparr>uin64 := f\<rparr>) v a w = copyout env v a w"
  by (simp add: copyout_def)

lemma kpersona_copyin_uin64: "kpersona_copyin (env\<lparr>uin64 := f\<rparr>) infop = kpersona_copyin env infop"
  by (simp add: kpersona_copyin_def split: prod.splits)

lemma find_out_uin64:
  "find_out (env\<lparr>uin64 := f\<rparr>) idlenp persona u k e r w = find_out env idlenp persona u k e r w"
  by (simp add: find_out_def copyout_uin64)

lemma copyout_ids_uin64:
  "copyout_ids (env\<lparr>uin64 := f\<rparr>) idp persona k u i w = copyout_ids env idp persona k u i w"
proof (induction env idp persona k u i w rule: copyout_ids.induct)
  case (1 env idp persona k_idlen u_idlen i w)
  show ?case
    apply (subst copyout_ids.simps)
    apply (subst (2) copyout_ids.simps)
    using "1.IH"
    by (auto simp add: copyout_uin64 split: option.splits prod.splits)
qed

lemma find_with_limit_uin64:
  "find_with_limit (env\<lparr>uin64 := f\<rparr>) infop idp idlenp u r = find_with_limit env infop idp idlenp u r"
proof -
  have m: "malloc_fails (env\<lparr>uin64 := f\<rparr>) = malloc_fails env" by simp
  show ?thesis
    unfolding find_with_limit_def kpersona_copyin_uin64 copyout_ids_uin64 find_out_uin64 m ..
qed

lemma find_with_limit_id_writes:
  assumes "find_with_limit env infop idp idlenp u r = Some (e, r', w)"
  shows "length (filter is_id_write w) \<le> unat u"
proof -
  have fo: "length (filter is_id_write (snd (snd (find_out env idlenp persona u k err r0 w0))))
              = length (filter is_id_write w0)" for persona k err r0 w0
    by (simp add: find_out_def copyout_def)
  show ?thesis
  proof (cases "kpersona_copyin env infop")
    case (Inl err)
    with assms have "w = snd (snd (find_out env idlenp None u 0 err r []))"
      by (auto simp: find_with_limit_def)
    then show ?thesis using fo[of None 0 err r "[]"] by simp
  next
    case (Inr kinfo)
    define persona where "persona = (if u > 0 \<and> \<not> malloc_fails env
                         then Some (replicate (unat u) (None :: uid_t option)) else None)"
    obtain err arr k r1 where pf:
      "persona_find (login_of kinfo) (persona_id kinfo) persona u r = (err, arr, k, r1)"
      by (cases "persona_find (login_of kinfo) (persona_id kinfo) persona u r")
    show ?thesis
    proof (cases "(u > 0 \<and> persona = None) \<or> err \<noteq> 0")
      case True
      with assms Inr pf have "\<exists>p k' e' r0. w = snd (snd (find_out env idlenp p u k' e' r0 []))"
        unfolding find_with_limit_def Let_def persona_def[symmetric]
        by (auto split: if_splits) (metis snd_conv)+
      then show ?thesis using fo by auto
    next
      case False
      with assms Inr pf obtain e' w' where
        loop: "copyout_ids env idp arr k u 0 [] = Some (e', w')"
        and w: "w = snd (snd (find_out env idlenp arr u k e' r1 w'))"
        unfolding find_with_limit_def Let_def persona_def[symmetric]
        by (auto split: if_splits option.splits)
      from copyout_ids_bound[OF loop] obtain ws where
        "w' = [] @ ws" "length ws \<le> unat u - 0" "\<forall>x \<in> set ws. is_id_write x" by blast
      then show ?thesis using w fo[of arr k e' r1 w'] by simp
    qed
  qed
qed

lemma persona_find_refs:
  assumes dist: "distinct (persona_ids r)"
  shows "refs_held (snd (snd (snd (persona_find login uid persona u r)))) \<le> refs_held r + unat u"
proof -
  define found where "found = found_personas login uid r"
  define got where "got = take (case persona of None \<Rightarrow> 0 | Some arr \<Rightarrow> unat u) (map pna_id found)"
  have g: "(case persona of None \<Rightarrow> [] | Some arr \<Rightarrow> take (unat u) (map pna_id found)) = got"
    by (simp add: got_def split: option.splits)
  have "snd (snd (snd (persona_find login uid persona u r)))
          = r\<lparr>all_personas :=
                map (\<lambda>p. if pna_id p \<in> set got then persona_get p else p) (all_personas r)\<rparr>"
    unfolding persona_find_def Let_def found_def[symmetric] g by simp
  then have "refs_held (snd (snd (snd (persona_find login uid persona u r))))
               = refs_held r + length got"
    using search_refs_held[OF dist found_def got_def] by simp
  moreover have "length got \<le> unat u" by (simp add: got_def split: option.splits)
  ultimately show ?thesis by simp
qed

subsection \<open>The clamped limit\<close>

text \<open>
  C10. A call of kpersona_find_syscall whose limit L is copied in runs the rest of the
  handler with the smaller of L and g_max_personas as the limit, without an error for the
  excess: the call behaves exactly like a call that asks for the clamped limit. Whatever
  the outcome, at most g_max_personas ids (and at most L) are copied out, and a search
  with the clamped limit on a table with unique ids acquires at most g_max_personas
  references.
\<close>

theorem kpersona_find_syscall_limit_clamped:
  assumes idlen: "uin64 env idlenp = (0, L)"
  shows
    "kpersona_find_syscall env infop idp idlenp r =
       find_with_limit env infop idp idlenp (min L (ucast (g_max_personas r))) r \<and>
     kpersona_find_syscall
         (env\<lparr>uin64 := (uin64 env)(idlenp := (0, min L (ucast (g_max_personas r))))\<rparr>)
         infop idp idlenp r
       = kpersona_find_syscall env infop idp idlenp r \<and>
     (\<forall>e r' w. kpersona_find_syscall env infop idp idlenp r = Some (e, r', w) \<longrightarrow>
        length (filter is_id_write w) \<le> unat (g_max_personas r) \<and>
        length (filter is_id_write w) \<le> unat L) \<and>
     (\<forall>login uid persona. distinct (persona_ids r) \<longrightarrow>
        refs_held (snd (snd (snd
          (persona_find login uid persona (min L (ucast (g_max_personas r))) r))))
          \<le> refs_held r + unat (g_max_personas r))"
proof -
  let ?u = "min L (ucast (g_max_personas r))"
  have ug: "unat ?u \<le> unat (g_max_personas r)" "unat ?u \<le> unat L"
    by (simp_all add: min_def word_le_nat_alt unat_ucast_32_64)
  have a: "kpersona_find_syscall env infop idp idlenp r = find_with_limit env infop idp idlenp ?u r"
    by (rule kpersona_find_syscall_limit[OF idlen])
  have b: "kpersona_find_syscall (env\<lparr>uin64 := (uin64 env)(idlenp := (0, ?u))\<rparr>) infop idp idlenp r
             = kpersona_find_syscall env infop idp idlenp r"
  proof -
    have "uin64 (env\<lparr>uin64 := (uin64 env)(idlenp := (0, ?u))\<rparr>) idlenp = (0, ?u)" by simp
    from kpersona_find_syscall_limit[OF this, of infop idp r]
    show ?thesis by (simp add: a find_with_limit_uin64)
  qed
  have c: "length (filter is_id_write w) \<le> unat (g_max_personas r) \<and>
           length (filter is_id_write w) \<le> unat L"
    if "kpersona_find_syscall env infop idp idlenp r = Some (e, r', w)" for e r' w
    using find_with_limit_id_writes[of env infop idp idlenp ?u r e r' w] that a ug by simp
  have d: "refs_held (snd (snd (snd (persona_find login uid persona ?u r))))
             \<le> refs_held r + unat (g_max_personas r)"
    if "distinct (persona_ids r)" for login uid persona
    using persona_find_refs[OF that, of login uid persona ?u] ug by simp
  show ?thesis using a b c d by blast
qed

theorem kpersona_find_syscall_limit_clamped_witness:
  "uin64 (example_env True 0 100 (example_request PERSONA_ID_NONE ''alice'')) 0x3000 = (0, 100) \<and>
   min (100 :: 64 word) (ucast (g_max_personas (example_registry example_table))) = 16 \<and>
   kpersona_find_syscall (example_env True 0 100 (example_request PERSONA_ID_NONE ''alice''))
      0x1000 0x2000 0x3000 (example_registry example_table)
     = Some (0, example_registry example_table,
             [(0x2000, U32 501), (0x2004, U32 502), (0x3000, U64 2)]) \<and>
   kpersona_find_syscall (example_env True 0 16 (example_request PERSONA_ID_NONE ''alice''))
      0x1000 0x2000 0x3000 (example_registry example_table)
     = Some (0, example_registry example_table,
             [(0x2000, U32 501), (0x2004, U32 502), (0x3000, U64 2)])"
proof -
  let ?req = "example_request PERSONA_ID_NONE ''alice''"
  let ?r = "example_registry example_table"
  have idlen: "uin64 (example_env True 0 n ?req) 0x3000 = (0, n)" for n
    by (simp add: example_env_def)
  have cin: "kpersona_copyin (example_env True 0 n ?req) 0x1000 = Inr ?req" for n
    by (rule kpersona_copyin_fixture[where s = "''alice''"])
      (simp_all add: example_env_def PERSONA_INFO_V1_def MAXLOGNAME_def)
  have mal: "\<not> malloc_fails (example_env True 0 n ?req)" for n by (simp add: example_env_def)
  have lg: "login_of ?req = Some ''alice''"
    by (rule login_of_fixture) (simp_all add: MAXLOGNAME_def)
  have f: "found_personas (login_of ?req) (persona_id ?req) ?r
             = [example_persona 501 ''alice'' 1, example_persona 502 ''alice'' 1]"
    unfolding lg by (simp add: example_table_found)
  have u: "min (100 :: 64 word) (ucast (g_max_personas ?r)) = 16"
    by (simp add: example_registry_def)
  have ev: "kpersona_find_syscall (example_env True 0 100 ?req) 0x1000 0x2000 0x3000 ?r =
           Some (0, ?r, id_writes 0x2000 [501, 502] 0 2 @
                        count_write (example_env True 0 100 ?req) 0x3000 2)"
    using find_eval_ok[OF idlen[of 100] cin[of 100] mal[of 100] example_table_inv(1)
        refl refl refl _ refl, where idp = "0x2000"]
    unfolding f u by (simp add: example_env_def example_persona_def)
  have w: "id_writes 0x2000 [501, 502] 0 2 @ count_write (example_env True 0 100 ?req) 0x3000 2
             = [(0x2000, U32 501), (0x2004, U32 502), (0x3000, U64 2)]"
    by (simp add: id_writes_def count_write_def example_env_def upt_rec numeral_2_eq_2)
  have e16: "(example_env True 0 100 ?req)\<lparr>uin64 := (uin64 (example_env True 0 100 ?req))(0x3000 := (0, 16))\<rparr>
               = example_env True 0 16 ?req"
    by (simp add: example_env_def fun_eq_iff)
  show ?thesis
    using kpersona_find_syscall_limit_clamped[OF idlen[of 100], of "0x1000" "0x2000" ?r]
    unfolding u e16 ev w by (simp add: example_env_def)
qed

end
